theory Spec2Isabelle
  imports Main
begin

section \<open>Python values the engine works with\<close>

text \<open>
  Player names and piece colours are strings, coordinates are pairs of Python integers,
  counters are unbounded Python integers. An exception that leaves a method is the
  \<open>Inl\<close> branch of the method's result.
\<close>

datatype py_error = KeyError | IndexError | TypeError | AttributeError

type_synonym stack = "string list"
type_synonym coord = "int \<times> int"
type_synonym board_layout = "stack list list"

text \<open>What the public methods hand back: \<open>False\<close>/\<open>True\<close>, a message, a counter.\<close>

datatype py_value = PyBool bool | PyStr string | PyInt int

definition ebind :: "py_error + 'a \<Rightarrow> ('a \<Rightarrow> py_error + 'b) \<Rightarrow> py_error + 'b" where
  "ebind m f = (case m of Inl e \<Rightarrow> Inl e | Inr x \<Rightarrow> f x)"

text \<open>
  A Python subscript \<open>xs[i]\<close> against a list of length \<open>n\<close>: indices \<open>0 .. n-1\<close> as they
  are, \<open>-n .. -1\<close> counted from the end, anything else raises IndexError.
\<close>

definition py_index :: "nat \<Rightarrow> int \<Rightarrow> nat option" where
  "py_index n i =
     (if 0 \<le> i \<and> i < int n then Some (nat i)
      else if i < 0 \<and> - int n \<le> i then Some (nat (int n + i))
      else None)"

definition getitem :: "'a list \<Rightarrow> int \<Rightarrow> py_error + 'a" where
  "getitem xs i = (case py_index (length xs) i of None \<Rightarrow> Inl IndexError | Some k \<Rightarrow> Inr (xs ! k))"

definition setitem :: "'a list \<Rightarrow> int \<Rightarrow> 'a \<Rightarrow> py_error + 'a list" where
  "setitem xs i v = (case py_index (length xs) i of None \<Rightarrow> Inl IndexError | Some k \<Rightarrow> Inr (xs[k := v]))"

text \<open>The slices \<open>xs[0:j]\<close> and \<open>xs[i:]\<close>; a negative bound counts from the end and is
  clipped at the start of the list.\<close>

definition slice_upto :: "'a list \<Rightarrow> int \<Rightarrow> 'a list" where
  "slice_upto xs j = take (nat (if j < 0 then int (length xs) + j else j)) xs"

definition slice_from :: "'a list \<Rightarrow> int \<Rightarrow> 'a list" where
  "slice_from xs i = drop (nat (if i < 0 then int (length xs) + i else i)) xs"

section \<open>Player.py\<close>

record player =
  name :: string
  color :: string
  reserved :: int
  captured :: int

definition Player :: "string \<Rightarrow> string \<Rightarrow> player" where
  "Player player_name player_color =
     \<lparr>name = player_name, color = player_color, reserved = 0, captured = 0\<rparr>"

definition add_to_reserve :: "player \<Rightarrow> player" where
  "add_to_reserve p = p\<lparr>reserved := reserved p + 1\<rparr>"

definition add_to_captured :: "player \<Rightarrow> player" where
  "add_to_captured p = p\<lparr>captured := captured p + 1\<rparr>"

definition play_from_reserve :: "player \<Rightarrow> player" where
  "play_from_reserve p = p\<lparr>reserved := reserved p - 1\<rparr>"

section \<open>Board.py\<close>

text \<open>
  \<open>Board.__init__\<close>: six rows appended for \<open>i\<close> in \<open>range(6)\<close>, each a fresh list of six
  fresh one-piece stacks, so no two cells share a list object.
\<close>

definition Board :: "string \<Rightarrow> string \<Rightarrow> board_layout" where
  "Board p1_color p2_color =
     map (\<lambda>i::nat.
            if i mod 2 = 0
            then [[p1_color], [p1_color], [p2_color], [p2_color], [p1_color], [p1_color]]
            else [[p2_color], [p2_color], [p1_color], [p1_color], [p2_color], [p2_color]])
         [0..<6]"

text \<open>\<open>modify_tile\<close>: \<open>self._board_layout[row][col] = new_stack\<close>, with no bounds check of
  its own.\<close>

definition modify_tile :: "board_layout \<Rightarrow> coord \<Rightarrow> stack \<Rightarrow> py_error + board_layout" where
  "modify_tile b tile_coord new_stack =
     ebind (getitem b (fst tile_coord)) (\<lambda>row.
     ebind (setitem row (snd tile_coord) new_stack) (\<lambda>row'.
     setitem b (fst tile_coord) row'))"

text \<open>\<open>return_stack\<close>: \<open>None\<close> stands for the \<open>False\<close> returned off the board.\<close>

definition return_stack :: "board_layout \<Rightarrow> coord \<Rightarrow> py_error + stack option" where
  "return_stack b tile_coord =
     (if 5 < fst tile_coord \<or> fst tile_coord < 0 then Inr None
      else if 5 < snd tile_coord \<or> snd tile_coord < 0 then Inr None
      else ebind (getitem b (fst tile_coord)) (\<lambda>row.
           ebind (getitem row (snd tile_coord)) (\<lambda>st. Inr (Some st))))"

section \<open>FocusGame.py\<close>

text \<open>
  The engine's attributes. The dictionary \<open>_players\<close> maps the two names to the very
  objects held in \<open>_player1\<close> and \<open>_player2\<close>, and names never change, so it is the
  function \<open>players\<close> below, whose values say which of the two objects is meant.
\<close>

record focus_game =
  board :: board_layout
  current_player_turn :: string
  player1 :: player
  player2 :: player
  game_state :: string

datatype player_ref = Player1 | Player2

definition players :: "focus_game \<Rightarrow> string \<Rightarrow> player_ref option" where
  "players g = [name (player1 g) \<mapsto> Player1, name (player2 g) \<mapsto> Player2]"

definition players_getitem :: "focus_game \<Rightarrow> string \<Rightarrow> py_error + player_ref" where
  "players_getitem g player_name =
     (case players g player_name of None \<Rightarrow> Inl KeyError | Some r \<Rightarrow> Inr r)"

fun deref :: "focus_game \<Rightarrow> player_ref \<Rightarrow> player" where
  "deref g Player1 = player1 g"
| "deref g Player2 = player2 g"

fun assign :: "focus_game \<Rightarrow> player_ref \<Rightarrow> player \<Rightarrow> focus_game" where
  "assign g Player1 p = g\<lparr>player1 := p\<rparr>"
| "assign g Player2 p = g\<lparr>player2 := p\<rparr>"

definition FocusGame :: "string \<times> string \<Rightarrow> string \<times> string \<Rightarrow> focus_game" where
  "FocusGame p1 p2 =
     (let player1_color = snd p1; player2_color = snd p2;
          player1_name = fst p1; player2_name = fst p2
      in \<lparr>board = Board player1_color player2_color,
          current_player_turn = player1_name,
          player1 = Player player1_name player1_color,
          player2 = Player player2_name player2_color,
          game_state = ''IN PROGRESS''\<rparr>)"

definition determine_game_state :: "focus_game \<Rightarrow> string" where
  "determine_game_state g =
     (if captured (player1 g) \<ge> 6 then ''PLAYER 1 WINS''
      else if captured (player2 g) \<ge> 6 then ''PLAYER 2 WINS''
      else ''IN PROGRESS'')"

definition show_pieces :: "focus_game \<Rightarrow> coord \<Rightarrow> py_error + stack option" where
  "show_pieces g tile_coord = return_stack (board g) tile_coord"

text \<open>\<open>len(self.show_pieces(c))\<close>, \<open>self.show_pieces(c)[-1]\<close> and the slices need a list;
  on \<open>False\<close> Python raises TypeError.\<close>

definition pieces_list :: "focus_game \<Rightarrow> coord \<Rightarrow> py_error + stack" where
  "pieces_list g tile_coord =
     ebind (show_pieces g tile_coord) (\<lambda>r. case r of None \<Rightarrow> Inl TypeError | Some st \<Rightarrow> Inr st)"

text \<open>
  \<open>basic_move_validation\<close>, check by check in the order of the source. The reads of
  \<open>show_pieces(from_coordinates)\<close> change nothing, so the list is read once here.
\<close>

definition basic_move_validation ::
  "focus_game \<Rightarrow> string \<Rightarrow> coord \<Rightarrow> coord \<Rightarrow> int \<Rightarrow> py_error + bool" where
  "basic_move_validation g player_name from_coordinates to_coordinates number_of_pieces =
     (let all_coords = [fst from_coordinates, snd from_coordinates,
                        fst to_coordinates, snd to_coordinates]
      in if list_ex (\<lambda>coords. coords \<notin> set [0, 1, 2, 3, 4, 5]) all_coords then Inr False
         else if game_state g \<noteq> ''IN PROGRESS'' then Inr False
         else if player_name \<noteq> current_player_turn g then Inr False
         else ebind (pieces_list g from_coordinates) (\<lambda>src.
           if number_of_pieces = 1 \<and> length src = 0 then Inr False
           else if length src = 0 then Inr False
           else ebind (getitem src (-1)) (\<lambda>top.
                ebind (players_getitem g player_name) (\<lambda>player.
           if top \<noteq> color (deref g player) then Inr False
           else if number_of_pieces < 0 \<or> number_of_pieces > int (length src) then Inr False
           else if \<bar>fst to_coordinates - fst from_coordinates\<bar> \<noteq> number_of_pieces
                   \<and> \<bar>snd to_coordinates - snd from_coordinates\<bar> \<noteq> number_of_pieces
                then Inr False
           else if fst to_coordinates \<noteq> fst from_coordinates
                   \<and> snd to_coordinates \<noteq> snd to_coordinates
                then Inr False
           else Inr True))))"

text \<open>
  The \<open>while\<close> loop of \<open>resolve_stacks\<close>, threading the player object it updates.
\<close>

function resolve_loop :: "player \<Rightarrow> stack \<Rightarrow> int \<Rightarrow> int \<Rightarrow> py_error + player" where
  "resolve_loop p input_stack pieces_to_resolve_cnt i =
     (if i < pieces_to_resolve_cnt
      then ebind (getitem input_stack i) (\<lambda>current_piece.
             resolve_loop
               (if current_piece = color p then add_to_reserve p else add_to_captured p)
               input_stack pieces_to_resolve_cnt (i + 1))
      else Inr p)"
  by pat_completeness auto
termination
  by (relation "measure (\<lambda>(p, input_stack, cnt, i). nat (cnt - i))") auto

declare resolve_loop.simps [simp del]

definition resolve_stacks ::
  "focus_game \<Rightarrow> stack \<Rightarrow> string \<Rightarrow> py_error + (stack \<times> focus_game)" where
  "resolve_stacks g input_stack player_name =
     (let pieces_to_resolve_cnt = int (length input_stack) - 5
      in ebind (players_getitem g player_name) (\<lambda>player.
         ebind (resolve_loop (deref g player) input_stack pieces_to_resolve_cnt 0) (\<lambda>p'.
         Inr (slice_from input_stack pieces_to_resolve_cnt, assign g player p'))))"

text \<open>
  \<open>single_move\<close> and \<open>multiple_move\<close>. \<open>show_pieces(to_coordinates)\<close> hands out the list
  object stored in the cell, so \<open>append\<close>/\<open>extend\<close> change the board at once (the
  \<open>modify_tile\<close> that yields \<open>b1\<close>). The source stack is sliced, hence copied, before that.
\<close>

definition single_move :: "focus_game \<Rightarrow> string \<Rightarrow> coord \<Rightarrow> coord \<Rightarrow> py_error + focus_game" where
  "single_move g player_name from_coordinates to_coordinates =
     ebind (players_getitem g player_name) (\<lambda>player.
     ebind (pieces_list g from_coordinates) (\<lambda>src.
     let old_stack = slice_upto src (int (length src) - 1) in
     ebind (show_pieces g to_coordinates) (\<lambda>dst.
     case dst of None \<Rightarrow> Inl AttributeError | Some to_stack \<Rightarrow>
     let new_stack = to_stack @ [color (deref g player)] in
     ebind (modify_tile (board g) to_coordinates new_stack) (\<lambda>b1.
     ebind (if length new_stack > 5
            then resolve_stacks (g\<lparr>board := b1\<rparr>) new_stack player_name
            else Inr (new_stack, g\<lparr>board := b1\<rparr>)) (\<lambda>(new_stack', g2).
     ebind (modify_tile (board g2) from_coordinates old_stack) (\<lambda>b3.
     ebind (modify_tile b3 to_coordinates new_stack') (\<lambda>b4.
     Inr (g2\<lparr>board := b4\<rparr>))))))))"

definition multiple_move ::
  "focus_game \<Rightarrow> string \<Rightarrow> coord \<Rightarrow> coord \<Rightarrow> int \<Rightarrow> py_error + focus_game" where
  "multiple_move g player_name from_coordinates to_coordinates number_of_pieces =
     ebind (show_pieces g to_coordinates) (\<lambda>dst.
     ebind (pieces_list g from_coordinates) (\<lambda>src.
     let old_stack = slice_upto src (int (length src) - number_of_pieces);
         pieces_to_move = slice_from src (- number_of_pieces)
     in case dst of None \<Rightarrow> Inl AttributeError | Some to_stack \<Rightarrow>
     let new_stack = to_stack @ pieces_to_move in
     ebind (modify_tile (board g) to_coordinates new_stack) (\<lambda>b1.
     ebind (if length new_stack > 5
            then resolve_stacks (g\<lparr>board := b1\<rparr>) new_stack player_name
            else Inr (new_stack, g\<lparr>board := b1\<rparr>)) (\<lambda>(new_stack', g2).
     ebind (modify_tile (board g2) from_coordinates old_stack) (\<lambda>b3.
     ebind (modify_tile b3 to_coordinates new_stack') (\<lambda>b4.
     Inr (g2\<lparr>board := b4\<rparr>)))))))"

text \<open>The tail shared by \<open>move_piece\<close> and \<open>reserved_move\<close>: hand the turn over, then
  recompute the status, then pick the message.\<close>

definition advance_turn :: "focus_game \<Rightarrow> focus_game" where
  "advance_turn g =
     (if current_player_turn g = name (player1 g)
      then g\<lparr>current_player_turn := name (player2 g)\<rparr>
      else g\<lparr>current_player_turn := name (player1 g)\<rparr>)"

definition set_game_state :: "focus_game \<Rightarrow> focus_game" where
  "set_game_state g = g\<lparr>game_state := determine_game_state g\<rparr>"

definition move_piece ::
  "focus_game \<Rightarrow> string \<Rightarrow> coord \<Rightarrow> coord \<Rightarrow> int \<Rightarrow> py_error + (py_value \<times> focus_game)" where
  "move_piece g player_name from_coordinates to_coordinates number_of_pieces =
     ebind (basic_move_validation g player_name from_coordinates to_coordinates number_of_pieces)
       (\<lambda>valid.
     if \<not> valid then Inr (PyBool False, g)
     else ebind (if number_of_pieces = 1
                 then single_move g player_name from_coordinates to_coordinates
                 else multiple_move g player_name from_coordinates to_coordinates number_of_pieces)
       (\<lambda>g1.
     let result = ''successfully moved'';
         g2 = advance_turn g1;
         g3 = set_game_state g2
     in if game_state g3 \<in> set [''PLAYER 1 WINS'', ''PLAYER 2 WINS'']
        then Inr (PyStr (current_player_turn g3 @ '' wins''), g3)
        else Inr (PyStr result, g3)))"

definition show_reserve :: "focus_game \<Rightarrow> string \<Rightarrow> py_value" where
  "show_reserve g player_name =
     (if name (player1 g) = player_name then PyInt (reserved (player1 g))
      else if name (player2 g) = player_name then PyInt (reserved (player2 g))
      else PyBool False)"

definition show_captured :: "focus_game \<Rightarrow> string \<Rightarrow> py_value" where
  "show_captured g player_name =
     (if name (player1 g) = player_name then PyInt (captured (player1 g))
      else if name (player2 g) = player_name then PyInt (captured (player2 g))
      else PyBool False)"

definition reserved_move ::
  "focus_game \<Rightarrow> string \<Rightarrow> coord \<Rightarrow> py_error + (py_value \<times> focus_game)" where
  "reserved_move g player_name to_coordinates =
     ebind (players_getitem g player_name) (\<lambda>player.
     ebind (show_pieces g to_coordinates) (\<lambda>to_stack.
     if reserved (deref g player) = 0 then Inr (PyBool False, g)
     else if player_name \<noteq> current_player_turn g then Inr (PyBool False, g)
     else if list_ex (\<lambda>coords. coords \<notin> set [0, 1, 2, 3, 4, 5])
               [fst to_coordinates, snd to_coordinates]
          then Inr (PyBool False, g)
     else let g0 = assign g player (play_from_reserve (deref g player)) in
     case to_stack of None \<Rightarrow> Inl AttributeError | Some st \<Rightarrow>
     let new_stack = st @ [color (deref g0 player)] in
     ebind (modify_tile (board g0) to_coordinates new_stack) (\<lambda>b1.
     ebind (if length new_stack > 5
            then resolve_stacks (g0\<lparr>board := b1\<rparr>) new_stack player_name
            else Inr (new_stack, g0\<lparr>board := b1\<rparr>)) (\<lambda>(new_stack', g2).
     ebind (modify_tile (board g2) to_coordinates new_stack') (\<lambda>b3.
     let g3 = advance_turn (g2\<lparr>board := b3\<rparr>);
         g4 = set_game_state g3
     in if game_state g4 \<in> set [''PLAYER 1 WINS'', ''PLAYER 2 WINS'']
        then Inr (PyStr (current_player_turn g4 @ '' wins''), g4)
        else Inr (PyBool True, g4))))))"

section \<open>Vocabulary of the specification\<close>

text \<open>
  Cells are addressed by coordinates within \<open>[0,5] \<times> [0,5]\<close>. On a board of six rows of
  six cells, \<open>cell\<close> reads a stack and \<open>set_cell\<close> replaces one; the lemmas below show that
  \<open>return_stack\<close> and \<open>modify_tile\<close> are these two on such a board.
\<close>

definition on_board :: "coord \<Rightarrow> bool" where
  "on_board c = (0 \<le> fst c \<and> fst c \<le> 5 \<and> 0 \<le> snd c \<and> snd c \<le> 5)"

definition wf_board :: "board_layout \<Rightarrow> bool" where
  "wf_board b = (length b = 6 \<and> list_all (\<lambda>row. length row = 6) b)"

definition cell :: "board_layout \<Rightarrow> coord \<Rightarrow> stack" where
  "cell b c = b ! nat (fst c) ! nat (snd c)"

definition set_cell :: "board_layout \<Rightarrow> coord \<Rightarrow> stack \<Rightarrow> board_layout" where
  "set_cell b c st = b[nat (fst c) := (b ! nat (fst c))[nat (snd c) := st]]"

text \<open>
  The overflow rule in the words of the specification. \<open>credit p xs\<close> goes through the
  pieces \<open>xs\<close> from the first (the bottom) upwards: a piece of the mover's colour adds one
  to the reserve, any other piece adds one to the captures. \<open>settle p st\<close> is what overflow
  resolution makes of a stack \<open>st\<close> that has landed on a cell: the stack kept and the
  mover's counters.
\<close>

fun credit :: "player \<Rightarrow> stack \<Rightarrow> player" where
  "credit p [] = p"
| "credit p (x # xs) =
     credit (if x = color p then add_to_reserve p else add_to_captured p) xs"

definition settle :: "player \<Rightarrow> stack \<Rightarrow> stack \<times> player" where
  "settle p st =
     (if length st > 5
      then (drop (length st - 5) st, credit p (take (length st - 5) st))
      else (st, p))"

text \<open>
  The three writes of a move, in the order of the source: the destination as extended in
  place (\<open>ns\<close>), then \<open>modify_tile\<close> on the source (\<open>old\<close>) and on the destination
  (\<open>ns'\<close>).
\<close>

definition place ::
  "board_layout \<Rightarrow> coord \<Rightarrow> coord \<Rightarrow> stack \<Rightarrow> stack \<Rightarrow> stack \<Rightarrow> board_layout" where
  "place b f t ns old ns' = set_cell (set_cell (set_cell b t ns) f old) t ns'"

text \<open>
  The tail of both operations: \<open>finish\<close> hands the turn over and stores the recomputed
  status, \<open>verdict\<close> is the value returned.
\<close>

definition wins :: "string \<Rightarrow> bool" where
  "wins s = (s = ''PLAYER 1 WINS'' \<or> s = ''PLAYER 2 WINS'')"

definition verdict :: "focus_game \<Rightarrow> py_value \<Rightarrow> py_value" where
  "verdict g ok = (if wins (game_state g) then PyStr (current_player_turn g @ '' wins'') else ok)"

definition finish :: "focus_game \<Rightarrow> focus_game" where
  "finish g = set_game_state (advance_turn g)"

text \<open>
  \<open>accepts\<close> lists the conditions under which validation answers \<open>True\<close> in a state with a
  six by six board whose turn holder is the player \<open>r\<close> (lemma \<open>validation_on\<close>).
  \<open>landing\<close> is the stack formed on the destination (its pieces followed by \<open>src[-n:]\<close>),
  \<open>leftover\<close> what stays on the source (\<open>src[0:len(src)-n]\<close>), \<open>moved\<close> the state after
  the board and the counters have been updated, before the turn is handed over.
\<close>

definition accepts :: "focus_game \<Rightarrow> player_ref \<Rightarrow> string \<Rightarrow> coord \<Rightarrow> coord \<Rightarrow> int \<Rightarrow> bool" where
  "accepts g r nm f t n =
     (on_board f \<and> on_board t \<and> game_state g = ''IN PROGRESS'' \<and> nm = current_player_turn g
      \<and> cell (board g) f \<noteq> [] \<and> last (cell (board g) f) = color (deref g r)
      \<and> 0 \<le> n \<and> n \<le> int (length (cell (board g) f))
      \<and> (\<bar>fst t - fst f\<bar> = n \<or> \<bar>snd t - snd f\<bar> = n))"

definition landing :: "focus_game \<Rightarrow> coord \<Rightarrow> coord \<Rightarrow> int \<Rightarrow> stack" where
  "landing g f t n = cell (board g) t @ slice_from (cell (board g) f) (- n)"

definition leftover :: "focus_game \<Rightarrow> coord \<Rightarrow> int \<Rightarrow> stack" where
  "leftover g f n = slice_upto (cell (board g) f) (int (length (cell (board g) f)) - n)"

definition moved :: "focus_game \<Rightarrow> player_ref \<Rightarrow> coord \<Rightarrow> coord \<Rightarrow> int \<Rightarrow> focus_game" where
  "moved g r f t n =
     (assign g r (snd (settle (deref g r) (landing g f t n))))
       \<lparr>board := place (board g) f t (landing g f t n) (leftover g f n)
                   (fst (settle (deref g r) (landing g f t n)))\<rparr>"

text \<open>
  The state after a reserve play has updated the mover's reserve, the board and the
  counters, before the turn is handed over.
\<close>

definition played :: "focus_game \<Rightarrow> player_ref \<Rightarrow> coord \<Rightarrow> focus_game" where
  "played g r t =
     (let p0 = play_from_reserve (deref g r);
          ns = cell (board g) t @ [color p0]
      in (assign g r (snd (settle p0 ns)))
           \<lparr>board := set_cell (set_cell (board g) t ns) t (fst (settle p0 ns))\<rparr>)"

text \<open>
  The states the engine can be in: a new game, and whatever a call of \<open>move_piece\<close> or of
  \<open>reserved_move\<close> that returns leaves behind. A call that raises changes nothing the
  caller could go on from: \<open>reserved_move\<close> raises before its first assignment, and in
  these states nothing else raises (lemmas \<open>move_piece_on\<close>, \<open>reserved_move_on\<close>).
\<close>

definition small_stacks :: "board_layout \<Rightarrow> bool" where
  "small_stacks b = list_all (list_all (\<lambda>st. length st \<le> 5)) b"

definition known_turn :: "focus_game \<Rightarrow> bool" where
  "known_turn g = (players g (current_player_turn g) \<noteq> None)"

inductive reachable :: "focus_game \<Rightarrow> bool" where
  start: "reachable (FocusGame p1 p2)"
| after_move: "reachable g \<Longrightarrow> move_piece g nm f t n = Inr (out, g') \<Longrightarrow> reachable g'"
| after_reserve: "reachable g \<Longrightarrow> reserved_move g nm t = Inr (out, g') \<Longrightarrow> reachable g'"

text \<open>
  A caller issuing calls one after the other, collecting what they return and stopping at
  the first exception; and one game between A (colour R) and B (colour G). \<open>game15\<close>
  is played with straight moves only: B piles five of its pieces on (3,5), A builds
  \<open>[G,R,R,R,R]\<close> on (3,0), moves it onto (3,5), which captures five pieces, and
  captures the sixth with a single piece from (2,5). \<open>mid_game\<close>, \<open>match_point\<close> and
  \<open>won_game\<close> are the states after 11, 14 and 15 of its calls.
\<close>

datatype call = Move string coord coord int | Reserve string coord

fun run_calls :: "focus_game \<Rightarrow> call list \<Rightarrow> py_error + (py_value list \<times> focus_game)" where
  "run_calls g [] = Inr ([], g)"
| "run_calls g (Move nm f t n # cs) =
     ebind (move_piece g nm f t n) (\<lambda>(r, g'). ebind (run_calls g' cs) (\<lambda>(rs, g''). Inr (r # rs, g'')))"
| "run_calls g (Reserve nm t # cs) =
     ebind (reserved_move g nm t) (\<lambda>(r, g'). ebind (run_calls g' cs) (\<lambda>(rs, g''). Inr (r # rs, g'')))"

definition fresh_game where "fresh_game = FocusGame (''A'', ''R'') (''B'', ''G'')"

definition game15 :: "call list" where "game15 = 
 [Move ''A'' (2,0) (3,0) 1, Move ''B'' (3,4) (3,5) 1,
  Move ''A'' (4,0) (3,0) 1, Move ''B'' (1,4) (1,5) 1,
  Move ''A'' (2,1) (2,0) 1, Move ''B'' (1,5) (3,5) 2,
  Move ''A'' (2,0) (3,0) 1, Move ''B'' (5,4) (5,5) 1,
  Move ''A'' (4,1) (4,0) 1, Move ''B'' (5,5) (3,5) 2,
  Move ''A'' (4,0) (3,0) 1, Move ''B'' (1,0) (1,1) 1,
  Move ''A'' (3,0) (3,5) 5, Move ''B'' (1,1) (1,0) 1,
  Move ''A'' (2,5) (3,5) 1]"

definition mid_game :: focus_game where
  "mid_game =
     \<lparr>board =
        [[[''R''], [''R''], [''G''], [''G''], [''R''], [''R'']],
         [[''G''], [''G''], [''R''], [''R''], [], []],
         [[], [], [''G''], [''G''], [''R''], [''R'']],
         [[''G'', ''R'', ''R'', ''R'', ''R''], [''G''], [''R''], [''R''], [],
          [''G'', ''G'', ''G'', ''G'', ''G'']],
         [[], [], [''G''], [''G''], [''R''], [''R'']],
         [[''G''], [''G''], [''R''], [''R''], [], []]],
      current_player_turn = ''B'',
      player1 = \<lparr>name = ''A'', color = ''R'', reserved = 0, captured = 0\<rparr>,
      player2 = \<lparr>name = ''B'', color = ''G'', reserved = 1, captured = 0\<rparr>,
      game_state = ''IN PROGRESS''\<rparr>"

definition match_point :: focus_game where
  "match_point =
     \<lparr>board =
        [[[''R''], [''R''], [''G''], [''G''], [''R''], [''R'']],
         [[''G''], [''G''], [''R''], [''R''], [], []],
         [[], [], [''G''], [''G''], [''R''], [''R'']],
         [[], [''G''], [''R''], [''R''], [], [''G'', ''R'', ''R'', ''R'', ''R'']],
         [[], [], [''G''], [''G''], [''R''], [''R'']],
         [[''G''], [''G''], [''R''], [''R''], [], []]],
      current_player_turn = ''A'',
      player1 = \<lparr>name = ''A'', color = ''R'', reserved = 0, captured = 5\<rparr>,
      player2 = \<lparr>name = ''B'', color = ''G'', reserved = 1, captured = 0\<rparr>,
      game_state = ''IN PROGRESS''\<rparr>"

definition won_game :: focus_game where
  "won_game =
     \<lparr>board =
        [[[''R''], [''R''], [''G''], [''G''], [''R''], [''R'']],
         [[''G''], [''G''], [''R''], [''R''], [], []],
         [[], [], [''G''], [''G''], [''R''], []],
         [[], [''G''], [''R''], [''R''], [], [''R'', ''R'', ''R'', ''R'', ''R'']],
         [[], [], [''G''], [''G''], [''R''], [''R'']],
         [[''G''], [''G''], [''R''], [''R''], [], []]],
      current_player_turn = ''B'',
      player1 = \<lparr>name = ''A'', color = ''R'', reserved = 0, captured = 6\<rparr>,
      player2 = \<lparr>name = ''B'', color = ''G'', reserved = 1, captured = 0\<rparr>,
      game_state = ''PLAYER 1 WINS''\<rparr>"

text \<open>
  All the pieces of a game: those on the 36 cells, both reserves and both capture counts.
\<close>

definition total_pieces :: "focus_game \<Rightarrow> int" where
  "total_pieces g =
     int (sum_list (map (\<lambda>row. sum_list (map length row)) (board g)))
     + reserved (player1 g) + reserved (player2 g)
     + captured (player1 g) + captured (player2 g)"

section \<open>Properties\<close>

subsection \<open>The board as a grid of cells\<close>

lemma ebind_Inr [simp]: "ebind (Inr x) f = f x" by (simp add: ebind_def)

lemma ebind_Inl [simp]: "ebind (Inl e) f = Inl e" by (simp add: ebind_def)

lemma ebind_eq_Inr: "(ebind m f = Inr y) = (\<exists>x. m = Inr x \<and> f x = Inr y)"
  by (cases m) auto

lemma in_range_iff: "(c::int) \<in> set [0, 1, 2, 3, 4, 5] = (0 \<le> c \<and> c \<le> 5)"
  by auto

lemma off_board4:
  "list_ex (\<lambda>coords. coords \<notin> set [0, 1, 2, 3, 4, 5]) [fst f, snd f, fst t, snd t]
     = (\<not> (on_board f \<and> on_board t))"
  by (simp only: list_ex_Cons_iff list_ex_Nil_iff in_range_iff on_board_def) auto

lemma off_board2:
  "list_ex (\<lambda>coords. coords \<notin> set [0, 1, 2, 3, 4, 5]) [fst t, snd t] = (\<not> on_board t)"
  by (simp only: list_ex_Cons_iff list_ex_Nil_iff in_range_iff on_board_def) auto

lemma wf_row: "wf_board b \<Longrightarrow> i < 6 \<Longrightarrow> length (b ! i) = 6"
  by (simp add: wf_board_def list_all_length)

lemma py_index_in: "0 \<le> i \<Longrightarrow> i < int n \<Longrightarrow> py_index n i = Some (nat i)"
  by (simp add: py_index_def)

lemma return_stack_on:
  assumes "wf_board b" "on_board c"
  shows "return_stack b c = Inr (Some (cell b c))"
proof -
  from assms have r: "0 \<le> fst c" "fst c \<le> 5" "0 \<le> snd c" "snd c \<le> 5" and l: "length b = 6"
    by (simp_all add: on_board_def wf_board_def)
  from r have "nat (fst c) < 6" by simp
  with assms(1) have "length (b ! nat (fst c)) = 6" by (rule wf_row)
  with r l show ?thesis
    by (simp add: return_stack_def getitem_def py_index_in cell_def)
qed

lemma return_stack_off: "\<not> on_board c \<Longrightarrow> return_stack b c = Inr None"
  by (auto simp: return_stack_def on_board_def)

lemma modify_tile_on:
  assumes "wf_board b" "on_board c"
  shows "modify_tile b c st = Inr (set_cell b c st)"
proof -
  from assms have r: "0 \<le> fst c" "fst c \<le> 5" "0 \<le> snd c" "snd c \<le> 5" and l: "length b = 6"
    by (simp_all add: on_board_def wf_board_def)
  from r have "nat (fst c) < 6" by simp
  with assms(1) have "length (b ! nat (fst c)) = 6" by (rule wf_row)
  with r l show ?thesis
    by (simp add: modify_tile_def getitem_def setitem_def py_index_in set_cell_def)
qed

lemma wf_set_cell:
  assumes "wf_board b"
  shows "wf_board (set_cell b c st)"
proof -
  have l: "length b = 6" and rows: "\<And>n. n < 6 \<Longrightarrow> length (b ! n) = 6"
    using assms by (simp_all add: wf_board_def list_all_length)
  have len: "length (set_cell b c st) = 6"
    by (simp add: set_cell_def l)
  have "length (set_cell b c st ! n) = 6" if "n < 6" for n
    using that l rows by (cases "n = nat (fst c)") (simp_all add: set_cell_def)
  with len show ?thesis
    by (simp add: wf_board_def list_all_length)
qed

lemma cell_set_cell:
  assumes "wf_board b" "on_board c" "on_board d"
  shows "cell (set_cell b c st) d = (if d = c then st else cell b d)"
proof -
  from assms have r: "0 \<le> fst c" "fst c \<le> 5" "0 \<le> snd c" "snd c \<le> 5" 
     "0 \<le> fst d" "fst d \<le> 5" "0 \<le> snd d" "snd d \<le> 5" and l: "length b = 6"
    by (simp_all add: on_board_def wf_board_def)
  from r have "nat (fst c) < 6" by simp
  with assms(1) have "length (b ! nat (fst c)) = 6" by (rule wf_row)
  with r l show ?thesis
    by (auto simp: cell_def set_cell_def nth_list_update prod_eq_iff)
qed

subsection \<open>The loop of resolve_stacks\<close>

lemma credit_name_color: "name (credit p xs) = name p \<and> color (credit p xs) = color p"
  by (induction xs arbitrary: p) (simp_all add: add_to_reserve_def add_to_captured_def)

lemma credit_counts:
  "reserved (credit p xs) = reserved p + int (length (filter (\<lambda>x. x = color p) xs)) \<and>
   captured (credit p xs) = captured p + int (length (filter (\<lambda>x. x \<noteq> color p) xs))"
  by (induction xs arbitrary: p) (simp_all add: add_to_reserve_def add_to_captured_def)

lemma resolve_loop_credit:
  "0 \<le> i \<Longrightarrow> cnt \<le> int (length st) \<Longrightarrow>
   resolve_loop p st cnt i = Inr (credit p (take (nat (cnt - i)) (drop (nat i) st)))"
proof (induction p st cnt i rule: resolve_loop.induct)
  case (1 p st cnt i)
  show ?case
  proof (cases "i < cnt")
    case False
    then show ?thesis by (simp add: resolve_loop.simps [of p st cnt i])
  next
    case True
    with "1.prems" have lt: "nat i < length st" by simp
    from True "1.prems" have g: "getitem st i = Inr (st ! nat i)"
      by (simp add: getitem_def py_index_def)
    from True have n: "nat (cnt - i) = Suc (nat (cnt - (i + 1)))" by simp
    from "1.prems" have d: "nat (i + 1) = Suc (nat i)" by simp
    have t: "take (nat (cnt - i)) (drop (nat i) st)
               = st ! nat i # take (nat (cnt - (i + 1))) (drop (nat (i + 1)) st)"
      unfolding n d using lt by (simp add: Cons_nth_drop_Suc [symmetric])
    from "1.prems" have "0 \<le> i + 1" by simp
    from "1.IH" [OF True this "1.prems"(2)] True g show ?thesis
      by (simp add: resolve_loop.simps [of p st cnt i] t)
  qed
qed

lemma resolve_loop_frame:
  "resolve_loop p st cnt i = Inr p' \<Longrightarrow> name p' = name p \<and> color p' = color p"
proof (induction p st cnt i rule: resolve_loop.induct)
  case (1 p st cnt i)
  show ?case
  proof (cases "i < cnt")
    case False
    with "1.prems" show ?thesis by (simp add: resolve_loop.simps [of p st cnt i])
  next
    case True
    with "1.prems" obtain x where g: "getitem st i = Inr x"
      and r: "resolve_loop (if x = color p then add_to_reserve p else add_to_captured p)
                st cnt (i + 1) = Inr p'"
      by (auto simp: resolve_loop.simps [of p st cnt i] ebind_eq_Inr)
    from "1.IH" [OF True r] show ?thesis
      by (simp add: add_to_reserve_def add_to_captured_def split: if_splits)
  qed
qed

lemma players_getitem_Some: "players g nm = Some r \<Longrightarrow> players_getitem g nm = Inr r"
  by (simp add: players_getitem_def)

lemma assign_deref [simp]: "assign g r (deref g r) = g"
  by (cases r) simp_all

lemma deref_assign [simp]: "deref (assign g r p) r = p"
  by (cases r) simp_all

lemma board_assign [simp]: "board (assign g r p) = board g"
  by (cases r) simp_all

lemma turn_assign [simp]: "current_player_turn (assign g r p) = current_player_turn g"
  by (cases r) simp_all

lemma state_assign [simp]: "game_state (assign g r p) = game_state g"
  by (cases r) simp_all

lemma assign_board_update [simp]: "assign (g\<lparr>board := b\<rparr>) r p = (assign g r p)\<lparr>board := b\<rparr>"
  by (cases r) simp_all

lemma deref_board_update [simp]: "deref (g\<lparr>board := b\<rparr>) r = deref g r"
  by (cases r) simp_all

lemma players_board_update [simp]: "players (g\<lparr>board := b\<rparr>) = players g"
  by (simp add: players_def)

lemma resolve_stacks_on:
  assumes "players g nm = Some r" "length st > 5"
  shows "resolve_stacks g st nm
           = Inr (drop (length st - 5) st,
                  assign g r (credit (deref g r) (take (length st - 5) st)))"
proof -
  from assms(2) have a: "nat (int (length st) - 5) = length st - 5" by simp
  have loop: "resolve_loop (deref g r) st (int (length st) - 5) 0
          = Inr (credit (deref g r) (take (length st - 5) st))"
    using resolve_loop_credit [of 0 "int (length st) - 5" st "deref g r"] a by simp
  from assms(2) have s: "slice_from st (int (length st) - 5) = drop (length st - 5) st"
    by (simp add: slice_from_def a)
  show ?thesis
    by (simp add: resolve_stacks_def Let_def players_getitem_Some [OF assms(1)] loop s)
qed

lemma overflow_step:
  assumes "players g nm = Some r"
  shows "(if length st > 5 then resolve_stacks g st nm else Inr (st, g))
           = Inr (fst (settle (deref g r) st), assign g r (snd (settle (deref g r) st)))"
  using resolve_stacks_on [OF assms] by (simp add: settle_def)

subsection \<open>What single_move and multiple_move compute\<close>

lemma wf_place: "wf_board b \<Longrightarrow> wf_board (place b f t ns old ns')"
  by (simp add: place_def wf_set_cell)

lemma cell_place:
  assumes "wf_board b" "on_board f" "on_board t" "on_board d"
  shows "cell (place b f t ns old ns') d
           = (if d = t then ns' else if d = f then old else cell b d)"
  using assms by (simp add: place_def cell_set_cell wf_set_cell)

lemma show_pieces_on:
  "wf_board (board g) \<Longrightarrow> on_board c \<Longrightarrow> show_pieces g c = Inr (Some (cell (board g) c))"
  by (simp add: show_pieces_def return_stack_on)

lemma pieces_list_on:
  "wf_board (board g) \<Longrightarrow> on_board c \<Longrightarrow> pieces_list g c = Inr (cell (board g) c)"
  by (simp add: pieces_list_def show_pieces_on)

lemma slice_upto_butlast: "slice_upto xs (int (length xs) - 1) = butlast xs"
proof -
  have "nat (int (length xs) - 1) = length xs - 1" by arith
  then show ?thesis by (simp add: slice_upto_def butlast_conv_take del: One_nat_def)
qed

lemma single_move_on:
  assumes wf: "wf_board (board g)" and f: "on_board f" and t: "on_board t"
    and r: "players g nm = Some r"
  shows "single_move g nm f t
           = Inr ((assign g r (snd (settle (deref g r) (cell (board g) t @ [color (deref g r)]))))
                    \<lparr>board := place (board g) f t
                       (cell (board g) t @ [color (deref g r)])
                       (butlast (cell (board g) f))
                       (fst (settle (deref g r) (cell (board g) t @ [color (deref g r)])))\<rparr>)"
proof -
  let ?ns = "cell (board g) t @ [color (deref g r)]"
  let ?b1 = "set_cell (board g) t ?ns"
  have wf1: "wf_board ?b1" using wf by (rule wf_set_cell)
  have r1: "players (g\<lparr>board := ?b1\<rparr>) nm = Some r" using r by simp
  have wf3: "wf_board (set_cell ?b1 f (butlast (cell (board g) f)))"
    using wf1 by (rule wf_set_cell)
  show ?thesis
  proof (cases "5 < length ?ns")
    case True
    then show ?thesis
      unfolding single_move_def
      by (simp add: players_getitem_Some [OF r] pieces_list_on [OF wf f] show_pieces_on [OF wf t]
          modify_tile_on [OF wf t] resolve_stacks_on [OF r1 True] modify_tile_on [OF wf1 f]
          modify_tile_on [OF wf3 t] slice_upto_butlast place_def settle_def Let_def
        del: One_nat_def)
  next
    case False
    then show ?thesis
      unfolding single_move_def
      by (simp add: players_getitem_Some [OF r] pieces_list_on [OF wf f] show_pieces_on [OF wf t]
          modify_tile_on [OF wf t] modify_tile_on [OF wf1 f]
          modify_tile_on [OF wf3 t] slice_upto_butlast place_def settle_def Let_def
        del: One_nat_def)
  qed
qed

lemma multiple_move_on:
  assumes wf: "wf_board (board g)" and f: "on_board f" and t: "on_board t"
    and r: "players g nm = Some r"
  shows "multiple_move g nm f t n
           = Inr ((assign g r (snd (settle (deref g r)
                      (cell (board g) t @ slice_from (cell (board g) f) (- n)))))
                    \<lparr>board := place (board g) f t
                       (cell (board g) t @ slice_from (cell (board g) f) (- n))
                       (slice_upto (cell (board g) f) (int (length (cell (board g) f)) - n))
                       (fst (settle (deref g r)
                          (cell (board g) t @ slice_from (cell (board g) f) (- n))))\<rparr>)"
proof -
  let ?ns = "cell (board g) t @ slice_from (cell (board g) f) (- n)"
  let ?old = "slice_upto (cell (board g) f) (int (length (cell (board g) f)) - n)"
  let ?b1 = "set_cell (board g) t ?ns"
  have wf1: "wf_board ?b1" using wf by (rule wf_set_cell)
  have r1: "players (g\<lparr>board := ?b1\<rparr>) nm = Some r" using r by simp
  have wf3: "wf_board (set_cell ?b1 f ?old)"
    using wf1 by (rule wf_set_cell)
  show ?thesis
  proof (cases "5 < length ?ns")
    case True
    then show ?thesis
      unfolding multiple_move_def
      by (simp add: pieces_list_on [OF wf f] show_pieces_on [OF wf t]
          modify_tile_on [OF wf t] resolve_stacks_on [OF r1 True] modify_tile_on [OF wf1 f]
          modify_tile_on [OF wf3 t] place_def settle_def Let_def)
  next
    case False
    then show ?thesis
      unfolding multiple_move_def
      by (simp add: pieces_list_on [OF wf f] show_pieces_on [OF wf t]
          modify_tile_on [OF wf t] modify_tile_on [OF wf1 f]
          modify_tile_on [OF wf3 t] place_def settle_def Let_def)
  qed
qed

subsection \<open>What validation, move_piece and reserved_move compute\<close>

lemma getitem_last: "xs \<noteq> [] \<Longrightarrow> getitem xs (- 1) = Inr (last xs)"
proof -
  assume a: "xs \<noteq> []"
  then have "nat (int (length xs) + - 1) = length xs - 1" by simp
  with a show ?thesis
    by (simp add: getitem_def py_index_def last_conv_nth del: One_nat_def)
       (cases xs, simp_all)
qed

lemma validation_on:
  assumes wf: "wf_board (board g)" and r: "players g (current_player_turn g) = Some r"
  shows "basic_move_validation g nm f t n = Inr (accepts g r nm f t n)"
proof (cases "on_board f \<and> on_board t \<and> game_state g = ''IN PROGRESS''
               \<and> nm = current_player_turn g \<and> cell (board g) f \<noteq> []")
  case False
  then show ?thesis
    unfolding basic_move_validation_def Let_def off_board4 accepts_def
    by (auto simp: pieces_list_on [OF wf])
next
  case True
  then have f: "on_board f" and nm: "nm = current_player_turn g"
    and ne: "cell (board g) f \<noteq> []" by simp_all
  from r nm have r': "players_getitem g nm = Inr r" by (simp add: players_getitem_Some)
  show ?thesis
    unfolding basic_move_validation_def Let_def off_board4 accepts_def
    using True by (auto simp: pieces_list_on [OF wf f] getitem_last [OF ne] r' players_getitem_Some [OF r])
qed

lemma last_slice: "xs \<noteq> [] \<Longrightarrow> slice_from xs (- 1) = [last xs]"
proof -
  assume a: "xs \<noteq> []"
  then have "nat (int (length xs) + - 1) = length xs - 1" by simp
  with a show ?thesis
    by (simp add: slice_from_def del: One_nat_def)
       (metis a append_butlast_last_id append_eq_conv_conj length_butlast)
qed

lemma move_piece_on:
  assumes wf: "wf_board (board g)" and r: "players g (current_player_turn g) = Some r"
  shows "move_piece g nm f t n =
           (if accepts g r nm f t n
            then Inr (verdict (finish (moved g r f t n)) (PyStr ''successfully moved''),
                      finish (moved g r f t n))
            else Inr (PyBool False, g))"
proof (cases "accepts g r nm f t n")
  case False
  then show ?thesis by (simp add: move_piece_def validation_on [OF wf r])
next
  case True
  then have f: "on_board f" and t: "on_board t" and nm: "nm = current_player_turn g"
    and ne: "cell (board g) f \<noteq> []" and top: "last (cell (board g) f) = color (deref g r)"
    by (simp_all add: accepts_def)
  from r nm have r': "players g nm = Some r" by simp
  have one: "single_move g nm f t = Inr (moved g r f t 1)"
    unfolding single_move_on [OF wf f t r'] moved_def landing_def leftover_def
    using last_slice [OF ne] top by (simp add: slice_upto_butlast)
  have many: "multiple_move g nm f t n = Inr (moved g r f t n)"
    unfolding multiple_move_on [OF wf f t r'] moved_def landing_def leftover_def ..
  show ?thesis
    using True one many
    by (simp add: move_piece_def validation_on [OF wf r] Let_def verdict_def finish_def wins_def)
qed

lemma unknown_player_raises: "players g nm = None \<Longrightarrow> reserved_move g nm t = Inl KeyError"
  by (simp add: reserved_move_def players_getitem_def)

lemma assign_assign [simp]: "assign (assign g r p) r q = assign g r q"
  by (cases r) simp_all

lemma reserved_move_turn:
  assumes wf: "wf_board (board g)" and r: "players g (current_player_turn g) = Some r"
    and res: "reserved (deref g r) \<noteq> 0" and t: "on_board t"
  shows "reserved_move g (current_player_turn g) t =
           Inr (verdict (finish (played g r t)) (PyBool True), finish (played g r t))"
proof -
  let ?g0 = "assign g r (play_from_reserve (deref g r))"
  let ?ns = "cell (board g) t @ [color (play_from_reserve (deref g r))]"
  let ?b1 = "set_cell (board g) t ?ns"
  have wf1: "wf_board ?b1" using wf by (rule wf_set_cell)
  have r0: "players (?g0\<lparr>board := ?b1\<rparr>) (current_player_turn g) = Some r"
    using r by (cases r) (simp_all add: players_def play_from_reserve_def)
  show ?thesis
  proof (cases "5 < length ?ns")
    case True
    then show ?thesis
      using t res unfolding reserved_move_def off_board2
      by (simp add: players_getitem_Some [OF r] show_pieces_on [OF wf t]
          modify_tile_on [OF wf t] modify_tile_on [OF wf1 t]
          resolve_stacks_on [OF r0 True] settle_def played_def Let_def verdict_def finish_def
          wins_def del: One_nat_def)
  next
    case False
    then show ?thesis
      using t res unfolding reserved_move_def off_board2
      by (simp add: players_getitem_Some [OF r] show_pieces_on [OF wf t]
          modify_tile_on [OF wf t] modify_tile_on [OF wf1 t]
          settle_def played_def Let_def verdict_def finish_def wins_def del: One_nat_def)
  qed
qed

lemma show_pieces_total: "wf_board (board g) \<Longrightarrow> \<exists>x. show_pieces g c = Inr x"
  by (cases "on_board c") (simp_all add: show_pieces_on, simp add: show_pieces_def return_stack_off)

lemma reserved_move_on:
  assumes wf: "wf_board (board g)" and r: "players g nm = Some r"
  shows "reserved_move g nm t =
           (if reserved (deref g r) \<noteq> 0 \<and> nm = current_player_turn g \<and> on_board t
            then Inr (verdict (finish (played g r t)) (PyBool True), finish (played g r t))
            else Inr (PyBool False, g))"
proof (cases "reserved (deref g r) \<noteq> 0 \<and> nm = current_player_turn g \<and> on_board t")
  case True
  with reserved_move_turn [OF wf _ _ _, of r t] r show ?thesis by simp
next
  case False
  from show_pieces_total [OF wf] obtain x where "show_pieces g t = Inr x" by blast
  with False show ?thesis
    unfolding reserved_move_def off_board2
    by (auto simp: players_getitem_Some [OF r])
qed

subsection \<open>Invariants of the reachable states\<close>

lemma Board_rows:
  "Board a b =
     [[[a], [a], [b], [b], [a], [a]], [[b], [b], [a], [a], [b], [b]],
      [[a], [a], [b], [b], [a], [a]], [[b], [b], [a], [a], [b], [b]],
      [[a], [a], [b], [b], [a], [a]], [[b], [b], [a], [a], [b], [b]]]"
  by (simp add: Board_def upt_rec)

lemma wf_Board: "wf_board (Board a b)"
  by (simp add: Board_rows wf_board_def)

lemma small_Board: "small_stacks (Board a b)"
  by (simp add: Board_rows small_stacks_def)

lemma small_iff:
  assumes "wf_board b"
  shows "small_stacks b = (\<forall>d. on_board d \<longrightarrow> length (cell b d) \<le> 5)"
proof
  assume s: "small_stacks b"
  show "\<forall>d. on_board d \<longrightarrow> length (cell b d) \<le> 5"
  proof (intro allI impI)
    fix d assume d: "on_board d"
    then have i: "nat (fst d) < 6" and j: "nat (snd d) < 6" by (auto simp: on_board_def)
    from assms have l: "length b = 6" by (simp add: wf_board_def)
    from wf_row [OF assms i] have lr: "length (b ! nat (fst d)) = 6" .
    from s l i have "list_all (\<lambda>st. length st \<le> 5) (b ! nat (fst d))"
      by (simp add: small_stacks_def list_all_length)
    with lr j show "length (cell b d) \<le> 5"
      by (simp add: list_all_length cell_def)
  qed
next
  assume c: "\<forall>d. on_board d \<longrightarrow> length (cell b d) \<le> 5"
  from assms have l: "length b = 6" by (simp add: wf_board_def)
  have "length (b ! i ! j) \<le> 5" if "i < 6" "j < 6" for i j
  proof -
    from that have "on_board (int i, int j)" by (simp add: on_board_def)
    with c have "length (cell b (int i, int j)) \<le> 5" by blast
    then show ?thesis by (simp add: cell_def)
  qed
  with l wf_row [OF assms] show "small_stacks b"
    by (simp add: small_stacks_def list_all_length)
qed

lemma settle_length: "length (fst (settle p st)) \<le> 5"
  by (simp add: settle_def)

lemma settle_name_color:
  "name (snd (settle p st)) = name p \<and> color (snd (settle p st)) = color p"
  by (simp add: settle_def credit_name_color)

lemma names_assign:
  "name p = name (deref g r) \<Longrightarrow>
   name (player1 (assign g r p)) = name (player1 g) \<and>
   name (player2 (assign g r p)) = name (player2 g)"
  by (cases r) simp_all

lemma finish_fields:
  "board (finish g) = board g \<and> player1 (finish g) = player1 g \<and> player2 (finish g) = player2 g
   \<and> current_player_turn (finish g)
       = (if current_player_turn g = name (player1 g) then name (player2 g) else name (player1 g))
   \<and> game_state (finish g) = determine_game_state g"
  by (simp add: finish_def set_game_state_def advance_turn_def determine_game_state_def)

lemma moved_fields:
  "board (moved g r f t n)
     = place (board g) f t (landing g f t n) (leftover g f n)
         (fst (settle (deref g r) (landing g f t n)))
   \<and> current_player_turn (moved g r f t n) = current_player_turn g
   \<and> name (player1 (moved g r f t n)) = name (player1 g)
   \<and> name (player2 (moved g r f t n)) = name (player2 g)
   \<and> deref (moved g r f t n) r = snd (settle (deref g r) (landing g f t n))"
  by (cases r) (simp_all add: moved_def settle_name_color)

lemma played_fields:
  "board (played g r t)
     = set_cell (set_cell (board g) t (cell (board g) t @ [color (deref g r)])) t
         (fst (settle (play_from_reserve (deref g r)) (cell (board g) t @ [color (deref g r)])))
   \<and> current_player_turn (played g r t) = current_player_turn g
   \<and> name (player1 (played g r t)) = name (player1 g)
   \<and> name (player2 (played g r t)) = name (player2 g)
   \<and> deref (played g r t) r
       = snd (settle (play_from_reserve (deref g r)) (cell (board g) t @ [color (deref g r)]))"
  by (cases r) (simp_all add: played_def Let_def settle_name_color play_from_reserve_def)

lemma known_turn_finish:
  "name (player1 g') = name (player1 g) \<Longrightarrow> name (player2 g') = name (player2 g) \<Longrightarrow>
   known_turn (finish g')"
  by (simp add: known_turn_def players_def finish_fields)

lemma leftover_length: "length (leftover g f n) \<le> length (cell (board g) f)"
  by (simp add: leftover_def slice_upto_def)

lemma step_move:
  assumes wf: "wf_board (board g)" and k: "known_turn g" and s: "small_stacks (board g)"
    and m: "move_piece g nm f t n = Inr (out, g')"
  shows "wf_board (board g') \<and> known_turn g' \<and> small_stacks (board g')"
proof -
  from k obtain r where r: "players g (current_player_turn g) = Some r"
    by (auto simp: known_turn_def)
  show ?thesis
  proof (cases "accepts g r nm f t n")
    case False
    with m [unfolded move_piece_on [OF wf r]] wf k s show ?thesis by simp
  next
    case True
    with m [unfolded move_piece_on [OF wf r]] have g': "g' = finish (moved g r f t n)" by simp
    from True have f: "on_board f" and t: "on_board t" by (simp_all add: accepts_def)
    let ?b = "place (board g) f t (landing g f t n) (leftover g f n)
                (fst (settle (deref g r) (landing g f t n)))"
    have b: "board g' = ?b" by (simp add: g' finish_fields moved_fields)
    have wf': "wf_board ?b" using wf by (rule wf_place)
    have "length (cell ?b d) \<le> 5" if d: "on_board d" for d
    proof -
      from s d have "length (cell (board g) d) \<le> 5" unfolding small_iff [OF wf] by blast
      moreover from s f have "length (cell (board g) f) \<le> 5" unfolding small_iff [OF wf] by blast
      with leftover_length [of g f n] have "length (leftover g f n) \<le> 5" by simp
      ultimately show ?thesis
        by (simp add: cell_place [OF wf f t d] settle_length)
    qed
    then have "small_stacks ?b" unfolding small_iff [OF wf'] by blast
    moreover have "known_turn g'"
      unfolding g' by (rule known_turn_finish) (simp_all add: moved_fields)
    ultimately show ?thesis using wf' b by simp
  qed
qed

lemma step_reserve:
  assumes wf: "wf_board (board g)" and k: "known_turn g" and s: "small_stacks (board g)"
    and m: "reserved_move g nm t = Inr (out, g')"
  shows "wf_board (board g') \<and> known_turn g' \<and> small_stacks (board g')"
proof -
  from m obtain r where r: "players g nm = Some r"
    by (cases "players g nm") (simp_all add: unknown_player_raises)
  show ?thesis
  proof (cases "reserved (deref g r) \<noteq> 0 \<and> nm = current_player_turn g \<and> on_board t")
    case False
    with m [unfolded reserved_move_on [OF wf r]] wf k s show ?thesis by auto
  next
    case True
    with m [unfolded reserved_move_on [OF wf r]] have g': "g' = finish (played g r t)" by simp
    from True have t: "on_board t" by simp
    let ?ns = "cell (board g) t @ [color (deref g r)]"
    let ?b = "set_cell (set_cell (board g) t ?ns) t (fst (settle (play_from_reserve (deref g r)) ?ns))"
    have b: "board g' = ?b" by (simp add: g' finish_fields played_fields)
    have wf1: "wf_board (set_cell (board g) t ?ns)" using wf by (rule wf_set_cell)
    then have wf': "wf_board ?b" by (rule wf_set_cell)
    have "length (cell ?b d) \<le> 5" if d: "on_board d" for d
    proof -
      from s d have "length (cell (board g) d) \<le> 5" unfolding small_iff [OF wf] by blast
      then show ?thesis
        by (simp add: cell_set_cell [OF wf1 t d] cell_set_cell [OF wf t d] settle_length)
    qed
    then have "small_stacks ?b" unfolding small_iff [OF wf'] by blast
    moreover have "known_turn g'"
      unfolding g' by (rule known_turn_finish) (simp_all add: played_fields)
    ultimately show ?thesis using wf' b by simp
  qed
qed

lemma reachable_inv:
  "reachable g \<Longrightarrow> wf_board (board g) \<and> known_turn g \<and> small_stacks (board g)"
proof (induction rule: reachable.induct)
  case (start p1 p2)
  show ?case
    by (simp add: FocusGame_def Let_def wf_Board small_Board known_turn_def players_def Player_def)
next
  case (after_move g nm f t n out g')
  then show ?case using step_move by blast
next
  case (after_reserve g nm t out g')
  then show ?case using step_reserve by blast
qed

subsection \<open>The example game\<close>

lemma play_to_mid_game:
  "run_calls fresh_game (take 11 game15) = Inr (replicate 11 (PyStr ''successfully moved''), mid_game)"
  by code_simp

lemma play_to_match_point:
  "run_calls fresh_game (take 14 game15) = Inr (replicate 14 (PyStr ''successfully moved''), match_point)"
  by code_simp

lemma run_calls_reachable:
  "reachable g \<Longrightarrow> run_calls g cs = Inr (outs, g') \<Longrightarrow> reachable g'"
proof (induction cs arbitrary: g outs)
  case Nil
  then show ?case by simp
next
  case (Cons c cs)
  show ?case
  proof (cases c)
    case (Move nm f t n)
    with Cons.prems(2) obtain out g1 outs1 where
      m: "move_piece g nm f t n = Inr (out, g1)" and rest: "run_calls g1 cs = Inr (outs1, g')"
      by (auto simp: ebind_eq_Inr)
    from Cons.prems(1) m have "reachable g1" by (rule reachable.after_move)
    from Cons.IH [OF this rest] show ?thesis .
  next
    case (Reserve nm t)
    with Cons.prems(2) obtain out g1 outs1 where
      m: "reserved_move g nm t = Inr (out, g1)" and rest: "run_calls g1 cs = Inr (outs1, g')"
      by (auto simp: ebind_eq_Inr)
    from Cons.prems(1) m have "reachable g1" by (rule reachable.after_reserve)
    from Cons.IH [OF this rest] show ?thesis .
  qed
qed

lemma reachable_mid_game: "reachable mid_game"
  using run_calls_reachable [OF _ play_to_mid_game] by (simp add: fresh_game_def reachable.start)

lemma reachable_match_point: "reachable match_point"
  using run_calls_reachable [OF _ play_to_match_point] by (simp add: fresh_game_def reachable.start)

text \<open>
  C9. A new game whose first player has colour \<open>a\<close> and whose second has colour \<open>b\<close>
  shows one piece on every cell: \<open>[a]\<close> at (0,0), \<open>[b]\<close> at (0,2), \<open>[b]\<close> at (1,0),
  \<open>[a]\<close> at (1,2), and in general colour \<open>a\<close> where the parity of the row equals the
  parity of the column pair (columns 0-1, 2-3, 4-5), colour \<open>b\<close> elsewhere.
\<close>

theorem initial_layout:
  "show_pieces (FocusGame (n1, a) (n2, b)) (0, 0) = Inr (Some [a]) \<and>
   show_pieces (FocusGame (n1, a) (n2, b)) (0, 2) = Inr (Some [b]) \<and>
   show_pieces (FocusGame (n1, a) (n2, b)) (1, 0) = Inr (Some [b]) \<and>
   show_pieces (FocusGame (n1, a) (n2, b)) (1, 2) = Inr (Some [a]) \<and>
   (\<forall>r c. 0 \<le> r \<and> r \<le> 5 \<and> 0 \<le> c \<and> c \<le> 5 \<longrightarrow>
      show_pieces (FocusGame (n1, a) (n2, b)) (r, c)
        = Inr (Some [if even r = even (c div 2) then a else b]))"
proof -
  have bd: "board (FocusGame (n1, a) (n2, b)) = Board a b"
    by (simp add: FocusGame_def)
  have gen: "show_pieces (FocusGame (n1, a) (n2, b)) (r, c)
        = Inr (Some [if even r = even (c div 2) then a else b])"
    if rc: "0 \<le> r \<and> r \<le> 5 \<and> 0 \<le> c \<and> c \<le> 5" for r c
  proof -
    from rc have on: "on_board (r, c)" by (simp add: on_board_def)
    from rc have r: "r = 0 \<or> r = 1 \<or> r = 2 \<or> r = 3 \<or> r = 4 \<or> r = 5" by arith
    from rc have c: "c = 0 \<or> c = 1 \<or> c = 2 \<or> c = 3 \<or> c = 4 \<or> c = 5" by arith
    have "cell (Board a b) (r, c) = [if even r = even (c div 2) then a else b]"
      using r c by (elim disjE) (simp_all add: cell_def Board_rows)
    with on show ?thesis
      by (simp add: show_pieces_on bd wf_Board)
  qed
  from gen [of 0 0] gen [of 0 2] gen [of 1 0] gen [of 1 2] gen show ?thesis
    by simp
qed

theorem initial_layout_witness:
  "show_pieces (FocusGame (''A'', ''R'') (''B'', ''G'')) (3, 4) = Inr (Some [''G''])"
  using initial_layout [of "''A''" "''R''" "''B''" "''G''"] by simp

subsection \<open>Turn order\<close>

lemma fresh_game_wf: "wf_board (board fresh_game)"
  by (simp add: fresh_game_def FocusGame_def Let_def wf_Board)

lemma move_piece_accepted:
  assumes wf: "wf_board (board g)" and r: "players g (current_player_turn g) = Some r"
    and m: "move_piece g nm f t n = Inr (out, g')" and ok: "out \<noteq> PyBool False"
  shows "accepts g r nm f t n \<and> g' = finish (moved g r f t n)
         \<and> out = verdict g' (PyStr ''successfully moved'')"
  using m [unfolded move_piece_on [OF wf r]] ok by (auto split: if_splits)

lemma reserved_move_accepted:
  assumes wf: "wf_board (board g)" and r: "players g (current_player_turn g) = Some r"
    and m: "reserved_move g nm t = Inr (out, g')" and ok: "out \<noteq> PyBool False"
  shows "nm = current_player_turn g \<and> reserved (deref g r) \<noteq> 0 \<and> on_board t
         \<and> g' = finish (played g r t) \<and> out = verdict g' (PyBool True)"
proof -
  from m obtain r' where r': "players g nm = Some r'"
    by (cases "players g nm") (simp_all add: unknown_player_raises)
  from m [unfolded reserved_move_on [OF wf r']] ok
  have a: "reserved (deref g r') \<noteq> 0 \<and> nm = current_player_turn g \<and> on_board t"
    and b: "g' = finish (played g r' t) \<and> out = verdict g' (PyBool True)"
    by (auto split: if_splits)
  from a r r' have "r' = r" by simp
  with a b show ?thesis by simp
qed

lemma turn_after_finish:
  assumes r: "players g (current_player_turn g) = Some r"
    and n1: "name (player1 g1) = name (player1 g)" and n2: "name (player2 g1) = name (player2 g)"
    and t: "current_player_turn g1 = current_player_turn g"
  shows "current_player_turn (finish g1)
           = (if current_player_turn g = name (player1 g) then name (player2 g) else name (player1 g))
         \<and> name (player1 (finish g1)) = name (player1 g)
         \<and> name (player2 (finish g1)) = name (player2 g)
         \<and> game_state (finish g1) = determine_game_state (finish g1)
         \<and> (name (player1 g) \<noteq> name (player2 g) \<longrightarrow>
               current_player_turn (finish g1) \<noteq> current_player_turn g)"
proof -
  from r have "current_player_turn g = name (player1 g) \<or> current_player_turn g = name (player2 g)"
    by (auto simp: players_def split: if_splits)
  then show ?thesis
    using n1 n2 t
    by (auto simp: finish_def set_game_state_def advance_turn_def determine_game_state_def)
qed

text \<open>
  C5. After a successful \<open>move_piece\<close> or \<open>reserved_move\<close> the turn is handed to the other
  player whatever happened on the board, the status stored is the one computed from the
  counters after the move, and when that status is a win the message returned is the name
  of the new turn holder followed by \<open>wins\<close>; with two different names the new turn
  holder is not the player who moved.
\<close>

theorem turn_passes:
  assumes wf: "wf_board (board g)" and r: "players g (current_player_turn g) = Some r"
  shows "(move_piece g nm f t n = Inr (out, g') \<and> out \<noteq> PyBool False \<longrightarrow>
            nm = current_player_turn g
            \<and> current_player_turn g'
                = (if current_player_turn g = name (player1 g) then name (player2 g)
                   else name (player1 g))
            \<and> game_state g' = determine_game_state g'
            \<and> (wins (game_state g') \<longrightarrow> out = PyStr (current_player_turn g' @ '' wins''))
            \<and> (name (player1 g) \<noteq> name (player2 g) \<longrightarrow> current_player_turn g' \<noteq> nm))
       \<and> (reserved_move g nm t = Inr (out, g') \<and> out \<noteq> PyBool False \<longrightarrow>
            nm = current_player_turn g
            \<and> current_player_turn g'
                = (if current_player_turn g = name (player1 g) then name (player2 g)
                   else name (player1 g))
            \<and> game_state g' = determine_game_state g'
            \<and> (wins (game_state g') \<longrightarrow> out = PyStr (current_player_turn g' @ '' wins''))
            \<and> (name (player1 g) \<noteq> name (player2 g) \<longrightarrow> current_player_turn g' \<noteq> nm))"
proof (rule conjI; rule impI; elim conjE)
  assume m: "move_piece g nm f t n = Inr (out, g')" and ok: "out \<noteq> PyBool False"
  from move_piece_accepted [OF wf r m ok]
  have a: "nm = current_player_turn g" and g': "g' = finish (moved g r f t n)"
    and out: "out = verdict g' (PyStr ''successfully moved'')"
    by (simp_all add: accepts_def)
  have "name (player1 (moved g r f t n)) = name (player1 g)"
    "name (player2 (moved g r f t n)) = name (player2 g)"
    "current_player_turn (moved g r f t n) = current_player_turn g"
    by (simp_all add: moved_fields)
  from turn_after_finish [OF r this] a g' out
  show "nm = current_player_turn g
        \<and> current_player_turn g'
            = (if current_player_turn g = name (player1 g) then name (player2 g)
               else name (player1 g))
        \<and> game_state g' = determine_game_state g'
        \<and> (wins (game_state g') \<longrightarrow> out = PyStr (current_player_turn g' @ '' wins''))
        \<and> (name (player1 g) \<noteq> name (player2 g) \<longrightarrow> current_player_turn g' \<noteq> nm)"
    by (simp add: verdict_def)
next
  assume m: "reserved_move g nm t = Inr (out, g')" and ok: "out \<noteq> PyBool False"
  from reserved_move_accepted [OF wf r m ok]
  have a: "nm = current_player_turn g" and g': "g' = finish (played g r t)"
    and out: "out = verdict g' (PyBool True)"
    by simp_all
  have "name (player1 (played g r t)) = name (player1 g)"
    "name (player2 (played g r t)) = name (player2 g)"
    "current_player_turn (played g r t) = current_player_turn g"
    by (simp_all add: played_fields)
  from turn_after_finish [OF r this] a g' out
  show "nm = current_player_turn g
        \<and> current_player_turn g'
            = (if current_player_turn g = name (player1 g) then name (player2 g)
               else name (player1 g))
        \<and> game_state g' = determine_game_state g'
        \<and> (wins (game_state g') \<longrightarrow> out = PyStr (current_player_turn g' @ '' wins''))
        \<and> (name (player1 g) \<noteq> name (player2 g) \<longrightarrow> current_player_turn g' \<noteq> nm)"
    by (simp add: verdict_def)
qed

lemma mid_game_wf: "wf_board (board mid_game)"
  by (simp add: mid_game_def wf_board_def)

lemma match_point_wf: "wf_board (board match_point)"
  by (simp add: match_point_def wf_board_def)

lemma mid_game_turn: "players mid_game (current_player_turn mid_game) = Some Player2"
  by (simp add: mid_game_def players_def)

lemma match_point_turn: "players match_point (current_player_turn match_point) = Some Player1"
  by (simp add: match_point_def players_def)

lemma fresh_game_turn: "players fresh_game (current_player_turn fresh_game) = Some Player1"
  by (simp add: fresh_game_def FocusGame_def Let_def players_def Player_def)

lemma winning_move:
  "move_piece match_point ''A'' (2, 5) (3, 5) 1 = Inr (PyStr ''B wins'', won_game)"
  by code_simp

lemma reserve_at_mid_game:
  "reserved_move mid_game ''B'' (3, 5)
     = Inr (PyBool True, mid_game\<lparr>current_player_turn := ''A''\<rparr>)"
  by code_simp

theorem turn_passes_witness:
  "(''A'' = current_player_turn match_point
    \<and> current_player_turn won_game = name (player2 match_point)
    \<and> game_state won_game = determine_game_state won_game
    \<and> PyStr ''B wins'' = PyStr (current_player_turn won_game @ '' wins'')
    \<and> current_player_turn won_game \<noteq> ''A'')
   \<and> (''B'' = current_player_turn mid_game
    \<and> current_player_turn (mid_game\<lparr>current_player_turn := ''A''\<rparr>) = name (player1 mid_game)
    \<and> current_player_turn (mid_game\<lparr>current_player_turn := ''A''\<rparr>) \<noteq> ''B'')"
proof -
  have w: "wins (game_state won_game)" by (simp add: wins_def won_game_def)
  have d: "name (player1 match_point) \<noteq> name (player2 match_point)"
    by (simp add: match_point_def)
  have t: "current_player_turn match_point = name (player1 match_point)"
    by (simp add: match_point_def)
  have d2: "name (player1 mid_game) \<noteq> name (player2 mid_game)"
    by (simp add: mid_game_def)
  have t2: "current_player_turn mid_game \<noteq> name (player1 mid_game)"
    by (simp add: mid_game_def)
  have o1: "PyStr ''B wins'' \<noteq> PyBool False" by simp
  have o2: "PyBool True \<noteq> PyBool False" by simp
  note m = turn_passes [OF match_point_wf match_point_turn, THEN conjunct1, rule_format,
      OF conjI, OF winning_move o1]
  note p = turn_passes [OF mid_game_wf mid_game_turn, THEN conjunct2, rule_format,
      OF conjI, OF reserve_at_mid_game o2]
  from m w d d [symmetric] t have 1: "''A'' = current_player_turn match_point
    \<and> current_player_turn won_game = name (player2 match_point)
    \<and> game_state won_game = determine_game_state won_game
    \<and> PyStr ''B wins'' = PyStr (current_player_turn won_game @ '' wins'')
    \<and> current_player_turn won_game \<noteq> ''A''"
    by (simp only: if_True simp_thms, blast?)
  from p d2 d2 [symmetric] t2 t2 [symmetric] have 2: "''B'' = current_player_turn mid_game
    \<and> current_player_turn (mid_game\<lparr>current_player_turn := ''A''\<rparr>) = name (player1 mid_game)
    \<and> current_player_turn (mid_game\<lparr>current_player_turn := ''A''\<rparr>) \<noteq> ''B''"
    by (simp only: if_False simp_thms, blast?)
  from 1 2 show ?thesis by (rule conjI)
qed

text \<open>
  C7. In a state where the checks before it pass (coordinates on the board, game in
  progress, the caller's turn, a non-empty source whose top piece is the caller's, a piece
  count between 0 and the stack size), validation succeeds exactly when the row distance
  or the column distance equals the piece count; nothing asks the other distance to be
  zero, and \<open>move_piece\<close> carries the move out in exactly those cases.
\<close>

theorem geometry_check:
  assumes "wf_board (board g)" and "players g (current_player_turn g) = Some r"
    and "on_board f" and "on_board t" and "game_state g = ''IN PROGRESS''"
    and "nm = current_player_turn g"
    and "cell (board g) f \<noteq> []" and "last (cell (board g) f) = color (deref g r)"
    and "0 \<le> n" and "n \<le> int (length (cell (board g) f))"
  shows "basic_move_validation g nm f t n
           = Inr (\<bar>fst t - fst f\<bar> = n \<or> \<bar>snd t - snd f\<bar> = n)
         \<and> (\<exists>out g'. move_piece g nm f t n = Inr (out, g') \<and> out \<noteq> PyBool False)
             = (\<bar>fst t - fst f\<bar> = n \<or> \<bar>snd t - snd f\<bar> = n)"
proof -
  from assms have a: "accepts g r nm f t n = (\<bar>fst t - fst f\<bar> = n \<or> \<bar>snd t - snd f\<bar> = n)"
    by (simp add: accepts_def)
  have "basic_move_validation g nm f t n = Inr (accepts g r nm f t n)"
    using assms(1,2) by (rule validation_on)
  moreover have "(\<exists>out g'. move_piece g nm f t n = Inr (out, g') \<and> out \<noteq> PyBool False)
                   = accepts g r nm f t n"
    by (simp add: move_piece_on [OF assms(1,2)] verdict_def)
  ultimately show ?thesis by (simp add: a)
qed

theorem geometry_check_witness:
  "basic_move_validation fresh_game ''A'' (0, 0) (1, 2) 1 = Inr True
   \<and> (\<exists>out g'. move_piece fresh_game ''A'' (0, 0) (1, 2) 1 = Inr (out, g') \<and> out \<noteq> PyBool False)"
proof -
  have c: "cell (board fresh_game) (0, 0) = [''R'']"
    by (simp add: fresh_game_def FocusGame_def Let_def Board_rows cell_def)
  have f: "on_board (0, 0)" and t: "on_board (1, 2)" by (simp_all add: on_board_def)
  have st: "game_state fresh_game = ''IN PROGRESS''"
    by (simp add: fresh_game_def FocusGame_def Let_def)
  have nm: "''A'' = current_player_turn fresh_game"
    by (simp add: fresh_game_def FocusGame_def Let_def)
  have ne: "cell (board fresh_game) (0, 0) \<noteq> []" by (simp add: c)
  have top: "last (cell (board fresh_game) (0, 0)) = color (deref fresh_game Player1)"
    by (simp add: c) (simp add: fresh_game_def FocusGame_def Let_def Player_def)
  have n0: "(0::int) \<le> 1" by simp
  have n1: "1 \<le> int (length (cell (board fresh_game) (0, 0)))" by (simp add: c)
  have geo: "(\<bar>fst (1::int, 2::int) - fst (0::int, 0::int)\<bar> = 1
              \<or> \<bar>snd (1::int, 2::int) - snd (0::int, 0::int)\<bar> = 1) = True"
    by simp
  from geometry_check [OF fresh_game_wf fresh_game_turn f t st nm ne top n0 n1]
  show ?thesis by (simp only: geo simp_thms)
qed

text \<open>
  C6. A call of \<open>move_piece\<close> that validation rejects returns \<open>False\<close> together with the
  state it was given; a call that returns \<open>False\<close> was rejected by validation and its state
  is the one it was given; and in a well-formed state each failing rule (a coordinate off
  the board, game over, out of turn, empty source, top piece of the other colour, a count
  below zero or above the stack size, neither distance equal to the count) is such a
  rejection.
\<close>

theorem rejected_move_unchanged:
  "(basic_move_validation g nm f t n = Inr False \<longrightarrow>
      move_piece g nm f t n = Inr (PyBool False, g))
   \<and> (\<forall>g'. move_piece g nm f t n = Inr (PyBool False, g') \<longrightarrow>
         g' = g \<and> basic_move_validation g nm f t n = Inr False)
   \<and> (wf_board (board g) \<and> players g (current_player_turn g) = Some r
       \<and> \<not> (on_board f \<and> on_board t \<and> game_state g = ''IN PROGRESS''
             \<and> nm = current_player_turn g \<and> cell (board g) f \<noteq> []
             \<and> last (cell (board g) f) = color (deref g r)
             \<and> 0 \<le> n \<and> n \<le> int (length (cell (board g) f))
             \<and> (\<bar>fst t - fst f\<bar> = n \<or> \<bar>snd t - snd f\<bar> = n)) \<longrightarrow>
         move_piece g nm f t n = Inr (PyBool False, g))"
proof (intro conjI allI impI)
  assume "basic_move_validation g nm f t n = Inr False"
  then show "move_piece g nm f t n = Inr (PyBool False, g)"
    by (simp add: move_piece_def)
next
  fix g'
  assume m: "move_piece g nm f t n = Inr (PyBool False, g')"
  then obtain valid where v: "basic_move_validation g nm f t n = Inr valid"
    by (auto simp: move_piece_def ebind_eq_Inr)
  have "\<not> valid"
  proof
    assume "valid"
    with m v show False
      by (auto simp: move_piece_def ebind_eq_Inr Let_def split: if_splits)
  qed
  with m v show "g' = g" and "basic_move_validation g nm f t n = Inr False"
    by (simp_all add: move_piece_def)
next
  assume a: "wf_board (board g) \<and> players g (current_player_turn g) = Some r
       \<and> \<not> (on_board f \<and> on_board t \<and> game_state g = ''IN PROGRESS''
             \<and> nm = current_player_turn g \<and> cell (board g) f \<noteq> []
             \<and> last (cell (board g) f) = color (deref g r)
             \<and> 0 \<le> n \<and> n \<le> int (length (cell (board g) f))
             \<and> (\<bar>fst t - fst f\<bar> = n \<or> \<bar>snd t - snd f\<bar> = n))"
  then have wf: "wf_board (board g)" and r: "players g (current_player_turn g) = Some r"
    and "\<not> accepts g r nm f t n"
    by (simp_all add: accepts_def)
  then show "move_piece g nm f t n = Inr (PyBool False, g)"
    by (simp add: move_piece_on [OF wf r])
qed

theorem rejected_move_unchanged_witness:
  "basic_move_validation fresh_game ''B'' (1, 0) (1, 1) 1 = Inr False
   \<and> move_piece fresh_game ''B'' (1, 0) (1, 1) 1 = Inr (PyBool False, fresh_game)
   \<and> move_piece fresh_game ''A'' (0, 0) (0, 6) 1 = Inr (PyBool False, fresh_game)"
proof -
  have v: "basic_move_validation fresh_game ''B'' (1, 0) (1, 1) 1 = Inr False"
    by code_simp
  note 1 = rejected_move_unchanged [THEN conjunct1, THEN mp, OF v]
  have off: "\<not> on_board (0, 6)" by (simp add: on_board_def)
  have prem: "wf_board (board fresh_game)
       \<and> players fresh_game (current_player_turn fresh_game) = Some Player1
       \<and> \<not> (on_board (0, 0) \<and> on_board (0, 6) \<and> game_state fresh_game = ''IN PROGRESS''
             \<and> ''A'' = current_player_turn fresh_game \<and> cell (board fresh_game) (0, 0) \<noteq> []
             \<and> last (cell (board fresh_game) (0, 0)) = color (deref fresh_game Player1)
             \<and> (0::int) \<le> 1 \<and> 1 \<le> int (length (cell (board fresh_game) (0, 0)))
             \<and> (\<bar>fst (0::int, 6::int) - fst (0::int, 0::int)\<bar> = 1
                 \<or> \<bar>snd (0::int, 6::int) - snd (0::int, 0::int)\<bar> = 1))"
    using fresh_game_wf fresh_game_turn off by blast
  note 2 = rejected_move_unchanged [THEN conjunct2, THEN conjunct2, THEN mp, OF prem]
  from v 1 2 show ?thesis by (intro conjI)
qed

subsection \<open>Overflow\<close>

lemma settle_over:
  "5 < length st \<Longrightarrow>
   settle p st = (drop (length st - 5) st, credit p (take (length st - 5) st))"
  by (simp add: settle_def)

lemma settle_fst: "fst (settle p st) = (if 5 < length st then drop (length st - 5) st else st)"
  by (simp add: settle_def)

lemma deref_finish: "deref (finish g) r = deref g r"
  by (cases r) (simp_all add: finish_fields)

lemma landing_top:
  assumes "1 \<le> n" and "n \<le> int (length (cell (board g) f))"
  shows "landing g f t n
           = cell (board g) t @ drop (length (cell (board g) f) - nat n) (cell (board g) f)"
proof -
  from assms have "nat (int (length (cell (board g) f)) + - n) = length (cell (board g) f) - nat n"
    by arith
  with assms show ?thesis by (simp add: landing_def slice_from_def)
qed

lemma cell_after_move:
  assumes wf: "wf_board (board g)" and r: "players g (current_player_turn g) = Some r"
    and m: "move_piece g nm f t n = Inr (out, g')" and ok: "out \<noteq> PyBool False"
  shows "cell (board g') t = fst (settle (deref g r) (landing g f t n))
         \<and> deref g' r = snd (settle (deref g r) (landing g f t n))"
proof -
  from move_piece_accepted [OF wf r m ok]
  have a: "accepts g r nm f t n" and g': "g' = finish (moved g r f t n)" by simp_all
  from a have f: "on_board f" and t: "on_board t" by (simp_all add: accepts_def)
  show ?thesis
    by (simp add: g' finish_fields deref_finish moved_fields cell_place [OF wf f t t])
qed

lemma cell_after_reserve:
  assumes wf: "wf_board (board g)" and r: "players g (current_player_turn g) = Some r"
    and m: "reserved_move g nm t = Inr (out, g')" and ok: "out \<noteq> PyBool False"
  shows "cell (board g') t
           = fst (settle (play_from_reserve (deref g r)) (cell (board g) t @ [color (deref g r)]))
         \<and> deref g' r
           = snd (settle (play_from_reserve (deref g r)) (cell (board g) t @ [color (deref g r)]))"
proof -
  from reserved_move_accepted [OF wf r m ok]
  have t: "on_board t" and g': "g' = finish (played g r t)" by simp_all
  have wf1: "wf_board (set_cell (board g) t (cell (board g) t @ [color (deref g r)]))"
    using wf by (rule wf_set_cell)
  show ?thesis
    by (simp add: g' finish_fields deref_finish played_fields cell_set_cell [OF wf1 t t])
qed

text \<open>
  C4. \<open>resolve_stacks\<close> on a stack \<open>st\<close> of more than five pieces returns the top five,
  \<open>drop (length st - 5) st\<close>, and credits the mover with the bottom \<open>length st - 5\<close> pieces
  taken from the bottom upwards (\<open>credit\<close>): one more in reserve for each piece of the
  mover's colour, one more captured for each other piece. When the stack that lands on the
  destination of an accepted \<open>move_piece\<close> (the cell's pieces followed by the moved ones)
  or of an accepted \<open>reserved_move\<close> (the cell's pieces followed by the played one) has more
  than five pieces, the cell ends up holding exactly its top five, in order, and the mover
  has been credited with the rest.
\<close>

theorem overflow_resolution:
  assumes wf: "wf_board (board g)" and r: "players g (current_player_turn g) = Some r"
  shows "(\<forall>st. 5 < length st \<longrightarrow>
            resolve_stacks g st (current_player_turn g)
              = Inr (drop (length st - 5) st,
                     assign g r (credit (deref g r) (take (length st - 5) st))))
       \<and> (\<forall>p xs. reserved (credit p xs)
                     = reserved p + int (length (filter (\<lambda>x. x = color p) xs))
                 \<and> captured (credit p xs)
                     = captured p + int (length (filter (\<lambda>x. x \<noteq> color p) xs)))
       \<and> (move_piece g nm f t n = Inr (out, g') \<and> out \<noteq> PyBool False
            \<and> 5 < length (landing g f t n) \<longrightarrow>
              cell (board g') t = drop (length (landing g f t n) - 5) (landing g f t n)
              \<and> length (cell (board g') t) = 5
              \<and> deref g' r
                  = credit (deref g r) (take (length (landing g f t n) - 5) (landing g f t n))
              \<and> (1 \<le> n \<longrightarrow>
                    landing g f t n
                      = cell (board g) t
                        @ drop (length (cell (board g) f) - nat n) (cell (board g) f)))
       \<and> (reserved_move g nm t = Inr (out, g') \<and> out \<noteq> PyBool False
            \<and> 5 < length (cell (board g) t @ [color (deref g r)]) \<longrightarrow>
              cell (board g') t
                = drop (length (cell (board g) t @ [color (deref g r)]) - 5)
                    (cell (board g) t @ [color (deref g r)])
              \<and> length (cell (board g') t) = 5
              \<and> deref g' r
                  = credit (play_from_reserve (deref g r))
                      (take (length (cell (board g) t @ [color (deref g r)]) - 5)
                         (cell (board g) t @ [color (deref g r)])))"
proof (intro conjI allI impI; (elim conjE)?)
  fix st :: stack
  assume "5 < length st"
  with r show "resolve_stacks g st (current_player_turn g)
              = Inr (drop (length st - 5) st,
                     assign g r (credit (deref g r) (take (length st - 5) st)))"
    by (rule resolve_stacks_on)
next
  fix p xs
  show "reserved (credit p xs) = reserved p + int (length (filter (\<lambda>x. x = color p) xs))"
    and "captured (credit p xs) = captured p + int (length (filter (\<lambda>x. x \<noteq> color p) xs))"
    by (simp_all add: credit_counts)
next
  assume m: "move_piece g nm f t n = Inr (out, g')" and ok: "out \<noteq> PyBool False"
    and big: "5 < length (landing g f t n)"
  note c = cell_after_move [OF wf r m ok, unfolded settle_over [OF big] fst_conv snd_conv]
  from c show "cell (board g') t = drop (length (landing g f t n) - 5) (landing g f t n)" ..
  with big show "length (cell (board g') t) = 5" by simp
  from c show "deref g' r
      = credit (deref g r) (take (length (landing g f t n) - 5) (landing g f t n))" ..
  from move_piece_accepted [OF wf r m ok] have "n \<le> int (length (cell (board g) f))"
    by (simp add: accepts_def)
  then show "landing g f t n
       = cell (board g) t @ drop (length (cell (board g) f) - nat n) (cell (board g) f)"
    if "1 \<le> n" using that by (simp add: landing_top)
next
  assume m: "reserved_move g nm t = Inr (out, g')" and ok: "out \<noteq> PyBool False"
    and big: "5 < length (cell (board g) t @ [color (deref g r)])"
  note c = cell_after_reserve [OF wf r m ok, unfolded settle_over [OF big] fst_conv snd_conv]
  from c show "cell (board g') t
      = drop (length (cell (board g) t @ [color (deref g r)]) - 5)
          (cell (board g) t @ [color (deref g r)])" ..
  with big show "length (cell (board g') t) = 5" by simp
  from c show "deref g' r
      = credit (play_from_reserve (deref g r))
          (take (length (cell (board g) t @ [color (deref g r)]) - 5)
             (cell (board g) t @ [color (deref g r)]))" ..
qed

lemma landing_at_match_point:
  "landing match_point (2, 5) (3, 5) 1 = [''G'', ''R'', ''R'', ''R'', ''R'', ''R'']"
  by (simp add: landing_def cell_def match_point_def slice_from_def)

lemma landing_at_mid_game:
  "cell (board mid_game) (3, 5) = [''G'', ''G'', ''G'', ''G'', ''G'']
   \<and> color (player2 mid_game) = ''G''"
  by (simp add: cell_def mid_game_def)

theorem overflow_resolution_witness:
  "resolve_stacks fresh_game [''R'', ''G'', ''R'', ''R'', ''G'', ''R''] ''A''
     = Inr ([''G'', ''R'', ''R'', ''G'', ''R''],
            fresh_game\<lparr>player1 := (player1 fresh_game)\<lparr>reserved := 1\<rparr>\<rparr>)
   \<and> cell (board won_game) (3, 5) = [''R'', ''R'', ''R'', ''R'', ''R'']
   \<and> deref won_game Player1 = add_to_captured (deref match_point Player1)
   \<and> cell (board (mid_game\<lparr>current_player_turn := ''A''\<rparr>)) (3, 5)
       = [''G'', ''G'', ''G'', ''G'', ''G'']
   \<and> deref (mid_game\<lparr>current_player_turn := ''A''\<rparr>) Player2
       = add_to_reserve (play_from_reserve (deref mid_game Player2))"
proof -
  let ?st = "[''R'', ''G'', ''R'', ''R'', ''G'', ''R'']"
  have o1: "PyStr ''B wins'' \<noteq> PyBool False" by simp
  have o2: "PyBool True \<noteq> PyBool False" by simp
  have big0: "5 < length ?st" by simp
  have e1: "current_player_turn fresh_game = ''A''"
    by (simp add: fresh_game_def FocusGame_def Let_def)
  have e2: "drop (length ?st - 5) ?st = [''G'', ''R'', ''R'', ''G'', ''R'']" by simp
  have e3: "assign fresh_game Player1 (credit (deref fresh_game Player1) (take (length ?st - 5) ?st))
              = fresh_game\<lparr>player1 := (player1 fresh_game)\<lparr>reserved := 1\<rparr>\<rparr>"
    by (simp add: fresh_game_def FocusGame_def Let_def Player_def add_to_reserve_def)
  note a = overflow_resolution [OF fresh_game_wf fresh_game_turn, THEN conjunct1, rule_format,
      OF big0]
  from a have 1: "resolve_stacks fresh_game ?st ''A''
     = Inr ([''G'', ''R'', ''R'', ''G'', ''R''],
            fresh_game\<lparr>player1 := (player1 fresh_game)\<lparr>reserved := 1\<rparr>\<rparr>)"
    by (simp only: e1 e2 e3)
  have big1: "5 < length (landing match_point (2, 5) (3, 5) 1)"
    by (simp add: landing_at_match_point)
  note b = overflow_resolution [OF match_point_wf match_point_turn, THEN conjunct2,
      THEN conjunct2, THEN conjunct1, rule_format, OF conjI [OF winning_move conjI [OF o1 big1]]]
  have c1: "color (player1 match_point) = ''R''"
    by (simp add: match_point_def)
  from b have 2: "cell (board won_game) (3, 5) = [''R'', ''R'', ''R'', ''R'', ''R'']
     \<and> deref won_game Player1 = add_to_captured (deref match_point Player1)"
    by (simp add: landing_at_match_point c1)
  have big2: "5 < length (cell (board mid_game) (3, 5) @ [color (deref mid_game Player2)])"
    by (simp add: landing_at_mid_game)
  note c = overflow_resolution [OF mid_game_wf mid_game_turn, THEN conjunct2,
      THEN conjunct2, THEN conjunct2, rule_format,
      OF conjI [OF reserve_at_mid_game conjI [OF o2 big2]]]
  have c2: "color (play_from_reserve (player2 mid_game)) = ''G''"
    by (simp add: mid_game_def play_from_reserve_def)
  from c have 3: "cell (board (mid_game\<lparr>current_player_turn := ''A''\<rparr>)) (3, 5)
       = [''G'', ''G'', ''G'', ''G'', ''G'']
     \<and> deref (mid_game\<lparr>current_player_turn := ''A''\<rparr>) Player2
       = add_to_reserve (play_from_reserve (deref mid_game Player2))"
    by (simp add: landing_at_mid_game c2)
  from 1 2 3 show ?thesis by (intro conjI) simp_all
qed

lemma play_to_won_game:
  "run_calls fresh_game game15
     = Inr (replicate 14 (PyStr ''successfully moved'') @ [PyStr ''B wins''], won_game)"
  by code_simp

lemma reachable_won_game: "reachable won_game"
  using run_calls_reachable [OF _ play_to_won_game] by (simp add: fresh_game_def reachable.start)

text \<open>
  C10. In every state the engine can reach from a new game by calls of \<open>move_piece\<close> and
  \<open>reserved_move\<close>, the board has its 36 cells and none holds more than five pieces; and
  the destination of an accepted move or reserve play is left with the stack that landed
  on it when that has at most five pieces, with its top five otherwise.
\<close>

theorem stacks_at_most_five:
  assumes "reachable g"
  shows "length (board g) = 6 \<and> list_all (\<lambda>row. length row = 6) (board g)
       \<and> list_all (list_all (\<lambda>st. length st \<le> 5)) (board g)
       \<and> (\<forall>d. on_board d \<longrightarrow> length (cell (board g) d) \<le> 5)
       \<and> (\<forall>nm f t n out g'. move_piece g nm f t n = Inr (out, g') \<and> out \<noteq> PyBool False \<longrightarrow>
             cell (board g') t
               = (if 5 < length (landing g f t n)
                  then drop (length (landing g f t n) - 5) (landing g f t n)
                  else landing g f t n))
       \<and> (\<forall>nm t out g' r. reserved_move g nm t = Inr (out, g') \<and> out \<noteq> PyBool False
              \<and> players g nm = Some r \<longrightarrow>
             cell (board g') t
               = (if 5 < length (cell (board g) t @ [color (deref g r)])
                  then drop (length (cell (board g) t @ [color (deref g r)]) - 5)
                         (cell (board g) t @ [color (deref g r)])
                  else cell (board g) t @ [color (deref g r)]))"
proof -
  from assms have wf: "wf_board (board g)" and k: "known_turn g" and s: "small_stacks (board g)"
    by (simp_all add: reachable_inv)
  from k obtain r0 where r0: "players g (current_player_turn g) = Some r0"
    by (auto simp: known_turn_def)
  from wf have 1: "length (board g) = 6 \<and> list_all (\<lambda>row. length row = 6) (board g)"
    by (simp add: wf_board_def)
  from s have 2: "list_all (list_all (\<lambda>st. length st \<le> 5)) (board g)"
    by (simp add: small_stacks_def)
  from s have 3: "\<forall>d. on_board d \<longrightarrow> length (cell (board g) d) \<le> 5"
    unfolding small_iff [OF wf] .
  have 4: "cell (board g') t
               = (if 5 < length (landing g f t n)
                  then drop (length (landing g f t n) - 5) (landing g f t n)
                  else landing g f t n)"
    if "move_piece g nm f t n = Inr (out, g') \<and> out \<noteq> PyBool False" for nm f t n out g'
  proof -
    from that have m: "move_piece g nm f t n = Inr (out, g')" and ok: "out \<noteq> PyBool False"
      by simp_all
    from cell_after_move [OF wf r0 m ok] show ?thesis by (simp only: settle_fst)
  qed
  have 5: "cell (board g') t
               = (if 5 < length (cell (board g) t @ [color (deref g r)])
                  then drop (length (cell (board g) t @ [color (deref g r)]) - 5)
                         (cell (board g) t @ [color (deref g r)])
                  else cell (board g) t @ [color (deref g r)])"
    if "reserved_move g nm t = Inr (out, g') \<and> out \<noteq> PyBool False \<and> players g nm = Some r"
    for nm t out g' r
  proof -
    from that have m: "reserved_move g nm t = Inr (out, g')" and ok: "out \<noteq> PyBool False"
      and r: "players g nm = Some r"
      by simp_all
    from reserved_move_accepted [OF wf r0 m ok] have "nm = current_player_turn g" by simp
    with r r0 have "r = r0" by simp
    with cell_after_reserve [OF wf r0 m ok] show ?thesis by (simp only: settle_fst)
  qed
  from 1 2 3 4 5 show ?thesis by blast
qed

theorem stacks_at_most_five_witness:
  "list_all (list_all (\<lambda>st. length st \<le> 5)) (board won_game)
   \<and> length (cell (board won_game) (3, 5)) \<le> 5
   \<and> cell (board won_game) (3, 5) = drop 1 [''G'', ''R'', ''R'', ''R'', ''R'', ''R'']"
proof -
  have o1: "PyStr ''B wins'' \<noteq> PyBool False" by simp
  have on: "on_board (3, 5)" by (simp add: on_board_def)
  note w = stacks_at_most_five [OF reachable_won_game]
  from w have 1: "list_all (list_all (\<lambda>st. length st \<le> 5)) (board won_game)" by blast
  from w on have 2: "length (cell (board won_game) (3, 5)) \<le> 5" by blast
  note m = stacks_at_most_five [OF reachable_match_point, THEN conjunct2, THEN conjunct2,
      THEN conjunct2, THEN conjunct2, THEN conjunct1, rule_format, OF conjI [OF winning_move o1]]
  from m have 3: "cell (board won_game) (3, 5) = drop 1 [''G'', ''R'', ''R'', ''R'', ''R'', ''R'']"
    by (simp add: landing_at_match_point)
  from 1 2 3 show ?thesis by (intro conjI)
qed

lemma move_piece_game_over:
  "game_state g \<noteq> ''IN PROGRESS'' \<Longrightarrow> move_piece g nm f t n = Inr (PyBool False, g)"
  by (simp add: move_piece_def basic_move_validation_def Let_def)

text \<open>
  C1. The game \<open>game15\<close>, played from a new game, ends with player 1 holding six captures,
  the status \<open>PLAYER 1 WINS\<close> and the turn with player B, who has one piece in reserve.
  In that state \<open>move_piece\<close> refuses B's move and changes nothing, but \<open>reserved_move\<close>
  accepts B's reserve play: a piece lands on (2,5), B's reserve drops to 0 and the turn
  goes to A.
\<close>

theorem reserved_move_after_win:
  "run_calls fresh_game game15
     = Inr (replicate 14 (PyStr ''successfully moved'') @ [PyStr ''B wins''], won_game)
   \<and> game_state won_game = ''PLAYER 1 WINS''
   \<and> move_piece won_game ''B'' (1, 0) (1, 1) 1 = Inr (PyBool False, won_game)
   \<and> reserved_move won_game ''B'' (2, 5)
       = Inr (PyStr ''A wins'',
              won_game\<lparr>board := (board won_game)
                                  [2 := [[], [], [''G''], [''G''], [''R''], [''G'']]],
                        current_player_turn := ''A'',
                        player2 := (player2 won_game)\<lparr>reserved := 0\<rparr>\<rparr>)"
  by code_simp

text \<open>
  C2. On a new game, A's request to move zero pieces from (0,0) to (0,1) passes validation
  and is carried out: the whole source stack is copied onto the destination, the source
  keeps its piece, and the turn goes to B.
\<close>

theorem zero_pieces_accepted:
  "basic_move_validation fresh_game ''A'' (0, 0) (0, 1) 0 = Inr True
   \<and> move_piece fresh_game ''A'' (0, 0) (0, 1) 0
       = Inr (PyStr ''successfully moved'',
              fresh_game\<lparr>board := (board fresh_game)
                                    [0 := [[''R''], [''R'', ''R''], [''G''], [''G''], [''R''], [''R'']]],
                         current_player_turn := ''B''\<rparr>)"
  by code_simp

text \<open>
  C3. A new game holds 36 pieces. After A's accepted move of zero pieces from (0,0) to
  (0,1), during which no stack exceeds five pieces, the board, the reserves and the
  captures together hold 37.
\<close>

theorem zero_move_breaks_conservation:
  "total_pieces fresh_game = 36
   \<and> (case move_piece fresh_game ''A'' (0, 0) (0, 1) 0 of
         Inl e \<Rightarrow> False
       | Inr (out, g') \<Rightarrow>
           out = PyStr ''successfully moved'' \<and> small_stacks (board g')
           \<and> total_pieces g' = 37)"
  by code_simp

text \<open>
  C8. On a new game between A and B, \<open>reserved_move\<close> for the unknown name \<open>nobody\<close>
  raises KeyError, where \<open>move_piece\<close>, \<open>show_reserve\<close> and \<open>show_captured\<close> return
  \<open>False\<close> for the same name and \<open>show_pieces\<close> returns \<open>False\<close> off the board.
\<close>

theorem reserved_move_unknown_player:
  "reserved_move fresh_game ''nobody'' (0, 0) = Inl KeyError
   \<and> move_piece fresh_game ''nobody'' (0, 0) (0, 1) 1 = Inr (PyBool False, fresh_game)
   \<and> show_reserve fresh_game ''nobody'' = PyBool False
   \<and> show_captured fresh_game ''nobody'' = PyBool False
   \<and> show_pieces fresh_game (6, 0) = Inr None"
  by code_simp

subsection \<open>Conservation of pieces\<close>

text \<open>
  An accepted move of one piece or more, and an accepted reserve play, keep the total
  number of pieces, overflow or not: what leaves the board is added to the mover's
  counters.
\<close>

lemma sum_list_update_int:
  "k < length xs \<Longrightarrow>
   int (sum_list (xs[k := v])) = int (sum_list xs) - int (xs ! k) + int (v::nat)"
  by (induction xs arbitrary: k) (auto split: nat.splits)

lemma count_set_cell:
  assumes wf: "wf_board b" and c: "on_board c"
  shows "int (sum_list (map (\<lambda>row. sum_list (map length row)) (set_cell b c st)))
           = int (sum_list (map (\<lambda>row. sum_list (map length row)) b))
             - int (length (cell b c)) + int (length st)"
proof -
  let ?i = "nat (fst c)" and ?j = "nat (snd c)"
  let ?F = "\<lambda>row. sum_list (map length row)"
  from c have i: "?i < 6" and j: "?j < 6" by (auto simp: on_board_def)
  from wf have l: "length b = 6" by (simp add: wf_board_def)
  from wf_row [OF wf i] have lr: "length (b ! ?i) = 6" .
  have row: "int (?F ((b ! ?i)[?j := st]))
               = int (?F (b ! ?i)) - int (length (b ! ?i ! ?j)) + int (length st)"
    using j lr by (simp add: map_update sum_list_update_int)
  have "int (sum_list (map ?F (b[?i := (b ! ?i)[?j := st]])))
          = int (sum_list (map ?F b)) - int (?F (b ! ?i)) + int (?F ((b ! ?i)[?j := st]))"
    using i l by (simp add: map_update sum_list_update_int)
  with row show ?thesis by (simp add: set_cell_def cell_def)
qed

lemma settle_total:
  "reserved (snd (settle p st)) + captured (snd (settle p st)) + int (length (fst (settle p st)))
     = reserved p + captured p + int (length st)"
proof (cases "5 < length st")
  case False
  then show ?thesis by (simp add: settle_def)
next
  case True
  let ?k = "length st - 5"
  have "length (filter (\<lambda>x. x = color p) (take ?k st))
          + length (filter (\<lambda>x. x \<noteq> color p) (take ?k st)) = length (take ?k st)"
    by (rule sum_length_filter_compl)
  with True show ?thesis
    by (simp add: settle_def credit_counts)
qed

lemma total_assign:
  "total_pieces ((assign g r p)\<lparr>board := b\<rparr>)
     = int (sum_list (map (\<lambda>row. sum_list (map length row)) b))
       + (reserved p + captured p)
       + (total_pieces g - int (sum_list (map (\<lambda>row. sum_list (map length row)) (board g)))
          - (reserved (deref g r) + captured (deref g r)))"
  by (cases r) (simp_all add: total_pieces_def)

lemma total_finish: "total_pieces (finish g) = total_pieces g"
  by (simp add: total_pieces_def finish_fields)

lemma move_conserves:
  assumes wf: "wf_board (board g)" and r: "players g (current_player_turn g) = Some r"
    and m: "move_piece g nm f t n = Inr (out, g')" and ok: "out \<noteq> PyBool False"
    and n: "1 \<le> n"
  shows "total_pieces g' = total_pieces g"
proof -
  from move_piece_accepted [OF wf r m ok]
  have a: "accepts g r nm f t n" and g': "g' = finish (moved g r f t n)" by simp_all
  from a have f: "on_board f" and t: "on_board t"
    and le: "n \<le> int (length (cell (board g) f))"
    and geo: "\<bar>fst t - fst f\<bar> = n \<or> \<bar>snd t - snd f\<bar> = n"
    by (simp_all add: accepts_def)
  from geo n have ft: "f \<noteq> t" by auto
  let ?b = "board g" and ?L = "landing g f t n" and ?old = "leftover g f n"
  let ?p = "deref g r"
  let ?ns = "fst (settle ?p ?L)"
  let ?C = "\<lambda>b. int (sum_list (map (\<lambda>row. sum_list (map length row)) b))"
  have wf1: "wf_board (set_cell ?b t ?L)" using wf by (rule wf_set_cell)
  then have wf2: "wf_board (set_cell (set_cell ?b t ?L) f ?old)" by (rule wf_set_cell)
  have lenL: "int (length ?L) = int (length (cell ?b t)) + n"
    using n le by (simp add: landing_top)
  have lenold: "int (length ?old) = int (length (cell ?b f)) - n"
    using n le by (simp add: leftover_def slice_upto_def)
  have c1: "?C (set_cell ?b t ?L) = ?C ?b - int (length (cell ?b t)) + int (length ?L)"
    by (rule count_set_cell [OF wf t])
  have c2: "?C (set_cell (set_cell ?b t ?L) f ?old)
              = ?C (set_cell ?b t ?L) - int (length (cell ?b f)) + int (length ?old)"
    using count_set_cell [OF wf1 f, of ?old] ft by (simp add: cell_set_cell [OF wf t f])
  have c3: "?C (place ?b f t ?L ?old ?ns)
              = ?C (set_cell (set_cell ?b t ?L) f ?old) - int (length ?L) + int (length ?ns)"
    using count_set_cell [OF wf2 t, of ?ns] ft
    by (simp add: place_def cell_set_cell [OF wf1 f t] cell_set_cell [OF wf t t])
  from c1 c2 c3 lenL lenold
  have board: "?C (place ?b f t ?L ?old ?ns) = ?C ?b - int (length ?L) + int (length ?ns)"
    by simp
  have "total_pieces (moved g r f t n) = total_pieces g"
    unfolding moved_def total_assign board
    using settle_total [of ?p ?L] by simp
  then show ?thesis by (simp add: g' total_finish)
qed

lemma reserve_conserves:
  assumes wf: "wf_board (board g)" and r: "players g (current_player_turn g) = Some r"
    and m: "reserved_move g nm t = Inr (out, g')" and ok: "out \<noteq> PyBool False"
  shows "total_pieces g' = total_pieces g"
proof -
  from reserved_move_accepted [OF wf r m ok]
  have t: "on_board t" and g': "g' = finish (played g r t)" by simp_all
  let ?b = "board g" and ?p = "play_from_reserve (deref g r)"
  let ?L = "cell (board g) t @ [color (play_from_reserve (deref g r))]"
  let ?ns = "fst (settle ?p ?L)"
  let ?C = "\<lambda>b. int (sum_list (map (\<lambda>row. sum_list (map length row)) b))"
  have wf1: "wf_board (set_cell ?b t ?L)" using wf by (rule wf_set_cell)
  have c1: "?C (set_cell ?b t ?L) = ?C ?b - int (length (cell ?b t)) + int (length ?L)"
    by (rule count_set_cell [OF wf t])
  have c2: "?C (set_cell (set_cell ?b t ?L) t ?ns)
              = ?C (set_cell ?b t ?L) - int (length ?L) + int (length ?ns)"
    using count_set_cell [OF wf1 t, of ?ns] by (simp add: cell_set_cell [OF wf t t])
  from c1 c2 have board: "?C (set_cell (set_cell ?b t ?L) t ?ns) = ?C ?b + 1 - int (length ?L) + int (length ?ns)"
    by simp
  have "total_pieces (played g r t) = total_pieces g"
    unfolding played_def Let_def total_assign board
    using settle_total [of ?p ?L] by (simp add: play_from_reserve_def)
  then show ?thesis by (simp add: g' total_finish)
qed

end
